theory Spec2Isabelle
  imports Complex_Main "HOL-Library.Sublist"
begin

section \<open>Strings and paths\<close>

text \<open>
  Go strings are byte strings; they are modelled as \<open>string\<close> (a list of 8-bit
  characters). The functions of this section are the Go standard library functions the
  server calls (packages \<open>strings\<close> and \<open>path/filepath\<close>, Unix flavour, separator
  \<open>/\<close>), written after their documented behaviour.
\<close>

definition HasPrefix :: "string \<Rightarrow> string \<Rightarrow> bool" where
  "HasPrefix s p = (take (length p) s = p)"

definition HasSuffix :: "string \<Rightarrow> string \<Rightarrow> bool" where
  "HasSuffix s p = (length p \<le> length s \<and> drop (length s - length p) s = p)"

definition TrimSuffix :: "string \<Rightarrow> string \<Rightarrow> string" where
  "TrimSuffix s p = (if HasSuffix s p then take (length s - length p) s else s)"

fun Contains :: "string \<Rightarrow> string \<Rightarrow> bool" where
  "Contains [] sub = (sub = [])"
| "Contains (c # cs) sub = (HasPrefix (c # cs) sub \<or> Contains cs sub)"

fun splitOn :: "char \<Rightarrow> string \<Rightarrow> string list" where
  "splitOn sep [] = [] # []"
| "splitOn sep (c # cs) =
     (if c = sep then [] # splitOn sep cs
      else (case splitOn sep cs of
              [] \<Rightarrow> [c] # []
            | h # t \<Rightarrow> (c # h) # t))"

fun joinWith :: "string \<Rightarrow> string list \<Rightarrow> string" where
  "joinWith sep [] = []"
| "joinWith sep [x] = x"
| "joinWith sep (x # y # ys) = x @ sep @ joinWith sep (y # ys)"

text \<open>
  \<open>filepath.Clean\<close>: the path is cut at separators; empty elements and \<open>.\<close> are dropped;
  \<open>..\<close> removes the element before it when there is one that is not itself \<open>..\<close>, is
  dropped at the start of a rooted path and is kept at the start of a relative one. The
  stack of kept elements is held in reverse. An empty result is \<open>.\<close>.
\<close>

definition clean_step :: "bool \<Rightarrow> string list \<Rightarrow> string \<Rightarrow> string list" where
  "clean_step rooted st el =
     (if el = [] \<or> el = ''.'' then st
      else if el = ''..'' then
        (case st of
           [] \<Rightarrow> (if rooted then [] else [''..''])
         | prev # below \<Rightarrow> (if prev \<noteq> ''..'' then below
                           else if rooted then st else ''..'' # st))
      else el # st)"

definition Clean :: "string \<Rightarrow> string" where
  "Clean path =
     (if path = [] then ''.''
      else
        let rooted = (hd path = CHR ''/'');
            st = foldl (clean_step rooted) [] (splitOn CHR ''/'' path);
            out = (if rooted then ''/'' else []) @ joinWith ''/'' (rev st)
        in if out = [] then ''.'' else out)"

text \<open>
  \<open>filepath.Join\<close>: leading empty elements are ignored, the rest is joined with the
  separator and cleaned; with nothing left the result is the empty string.
\<close>

fun Join :: "string list \<Rightarrow> string" where
  "Join [] = []"
| "Join (e # es) = (if e \<noteq> [] then Clean (joinWith ''/'' (e # es)) else Join es)"

text \<open>\<open>filepath.Dir\<close>: everything up to and including the last separator, cleaned.\<close>

definition Dir :: "string \<Rightarrow> string" where
  "Dir path =
     Clean (take (length path - length (takeWhile (\<lambda>c. c \<noteq> CHR ''/'') (rev path))) path)"

section \<open>The Tool Executor\<close>

text \<open>
  The file system is an external collaborator. Its answers are parameters of the model:
  a record of the \<open>os\<close> functions the tools call, over a state \<open>'w\<close> of the world that
  the two writing functions may change. An error is the text of \<open>err.Error()\<close>.
  \<open>ReadDir\<close> answers with the entries' names and their \<open>IsDir\<close> flags, \<open>Stat\<close> with
  \<open>info.Size()\<close>.
\<close>

record 'w os_env =
  ReadDir :: "'w \<Rightarrow> string \<Rightarrow> string + (string \<times> bool) list"
  Stat :: "'w \<Rightarrow> string \<Rightarrow> string + int"
  ReadFile :: "'w \<Rightarrow> string \<Rightarrow> string + string"
  MkdirAll :: "'w \<Rightarrow> string \<Rightarrow> string option \<times> 'w"
  WriteFile :: "'w \<Rightarrow> string \<Rightarrow> string \<Rightarrow> string option \<times> 'w"

text \<open>Every call a tool makes to the file system is recorded, with the path it names.\<close>

datatype fs_call =
  CallReadDir string
| CallStat string
| CallReadFile string
| CallMkdirAll string
| CallWriteFile string string

fun call_path :: "fs_call \<Rightarrow> string" where
  "call_path (CallReadDir p) = p"
| "call_path (CallStat p) = p"
| "call_path (CallReadFile p) = p"
| "call_path (CallMkdirAll p) = p"
| "call_path (CallWriteFile p c) = p"

text \<open>
  The tools answer with a \<open>map[string]any\<close> of one of four shapes:
  \<open>{"error": msg}\<close>, \<open>{"files": names}\<close>, \<open>{"content": text}\<close> and
  \<open>{"status": "OK", "path": relPath, "bytes_written": n}\<close>.
\<close>

datatype tool_result =
  ToolError string
| ToolFiles "string list"
| ToolContent string
| ToolWritten string nat

definition AccessDenied :: tool_result where
  "AccessDenied = ToolError ''Access denied: outside project root''"

definition TooLarge :: tool_result where
  "TooLarge = ToolError ''File too large''"

text \<open>
  Each tool returns its result, the file-system calls it made, and the world after them.
  \<open>projectRoot\<close> is the server's global of that name.
\<close>

definition toolListFiles ::
  "'w os_env \<Rightarrow> string \<Rightarrow> 'w \<Rightarrow> string \<Rightarrow> tool_result \<times> fs_call list \<times> 'w" where
  "toolListFiles os projectRoot w relPath0 =
     (let relPath = (if relPath0 = [] then ''.'' else relPath0);
          cleanPath = Join [projectRoot, Clean relPath]
      in if \<not> HasPrefix cleanPath projectRoot then (AccessDenied, [], w)
         else (case ReadDir os w cleanPath of
                 Inl err \<Rightarrow> (ToolError err, [CallReadDir cleanPath], w)
               | Inr entries \<Rightarrow>
                   (ToolFiles (map (\<lambda>(name, isDir). if isDir then name @ ''/'' else name) entries),
                    [CallReadDir cleanPath], w)))"

definition toolReadFile ::
  "'w os_env \<Rightarrow> string \<Rightarrow> 'w \<Rightarrow> string \<Rightarrow> tool_result \<times> fs_call list \<times> 'w" where
  "toolReadFile os projectRoot w relPath =
     (let cleanPath = Join [projectRoot, Clean relPath]
      in if \<not> HasPrefix cleanPath projectRoot then (AccessDenied, [], w)
         else (case Stat os w cleanPath of
                 Inl err \<Rightarrow> (ToolError err, [CallStat cleanPath], w)
               | Inr sz \<Rightarrow>
                   if sz > 1000000 then (TooLarge, [CallStat cleanPath], w)
                   else (case ReadFile os w cleanPath of
                           Inl err \<Rightarrow>
                             (ToolError err, [CallStat cleanPath, CallReadFile cleanPath], w)
                         | Inr content \<Rightarrow>
                             (ToolContent content,
                              [CallStat cleanPath, CallReadFile cleanPath], w))))"

definition toolWriteFile ::
  "'w os_env \<Rightarrow> string \<Rightarrow> 'w \<Rightarrow> string \<Rightarrow> string \<Rightarrow> tool_result \<times> fs_call list \<times> 'w" where
  "toolWriteFile os projectRoot w relPath content =
     (let cleanPath = Join [projectRoot, Clean relPath]
      in if \<not> HasPrefix cleanPath projectRoot then (AccessDenied, [], w)
         else
           let dir = Dir cleanPath
           in (case MkdirAll os w dir of
                 (Some err, w1) \<Rightarrow>
                   (ToolError (''Failed to create directory: '' @ err), [CallMkdirAll dir], w1)
               | (None, w1) \<Rightarrow>
                   (case WriteFile os w1 cleanPath content of
                      (Some err, w2) \<Rightarrow>
                        (ToolError err, [CallMkdirAll dir, CallWriteFile cleanPath content], w2)
                    | (None, w2) \<Rightarrow>
                        (ToolWritten relPath (length content),
                         [CallMkdirAll dir, CallWriteFile cleanPath content], w2))))"

section \<open>Text helpers\<close>

text \<open>
  \<open>strings.TrimSpace\<close> removes leading and trailing Unicode white space. On the bytes
  of a UTF-8 string these are the six ASCII space characters and the encodings of
  U+0085, U+00A0, U+1680, U+2000 to U+200A, U+2028, U+2029, U+202F, U+205F and U+3000.
\<close>

definition space_seqs :: "string list" where
  "space_seqs =
     [ [CHR 0x09], [CHR 0x0A], [CHR 0x0B], [CHR 0x0C], [CHR 0x0D], [CHR 0x20],
      [CHR 0xC2, CHR 0x85], [CHR 0xC2, CHR 0xA0], [CHR 0xE1, CHR 0x9A, CHR 0x80],
      [CHR 0xE2, CHR 0x80, CHR 0x80], [CHR 0xE2, CHR 0x80, CHR 0x81],
      [CHR 0xE2, CHR 0x80, CHR 0x82], [CHR 0xE2, CHR 0x80, CHR 0x83],
      [CHR 0xE2, CHR 0x80, CHR 0x84], [CHR 0xE2, CHR 0x80, CHR 0x85],
      [CHR 0xE2, CHR 0x80, CHR 0x86], [CHR 0xE2, CHR 0x80, CHR 0x87],
      [CHR 0xE2, CHR 0x80, CHR 0x88], [CHR 0xE2, CHR 0x80, CHR 0x89],
      [CHR 0xE2, CHR 0x80, CHR 0x8A], [CHR 0xE2, CHR 0x80, CHR 0xA8],
      [CHR 0xE2, CHR 0x80, CHR 0xA9], [CHR 0xE2, CHR 0x80, CHR 0xAF],
      [CHR 0xE2, CHR 0x81, CHR 0x9F], [CHR 0xE3, CHR 0x80, CHR 0x80] ]"

text \<open>
  One pass of trimming with a bound on the number of white-space runes removed; the
  length of the string is always enough.
\<close>

fun trimLeft :: "string list \<Rightarrow> nat \<Rightarrow> string \<Rightarrow> string" where
  "trimLeft seqs 0 s = s"
| "trimLeft seqs (Suc n) s =
     (case find (\<lambda>p. HasPrefix s p) seqs of
        None \<Rightarrow> s
      | Some p \<Rightarrow> trimLeft seqs n (drop (length p) s))"

definition TrimSpace :: "string \<Rightarrow> string" where
  "TrimSpace s =
     (let l = trimLeft space_seqs (length s) s
      in rev (trimLeft (map rev space_seqs) (length l) (rev l)))"

text \<open>\<open>%d\<close> of a length: the decimal digits.\<close>

fun itoa :: "nat \<Rightarrow> string" where
  "itoa n = (if n < 10 then [char_of (48 + n)] else itoa (n div 10) @ [char_of (48 + n mod 10)])"

text \<open>\<open>base64.StdEncoding.EncodeToString\<close>, with padding.\<close>

definition b64_digit :: "nat \<Rightarrow> char" where
  "b64_digit n =
     (''ABCDEFGHIJKLMNOPQRSTUVWXYZabcdefghijklmnopqrstuvwxyz0123456789+/'') ! (n mod 64)"

fun b64_groups :: "nat list \<Rightarrow> string" where
  "b64_groups [] = []"
| "b64_groups [a] = [b64_digit (a div 4), b64_digit ((a mod 4) * 16), CHR ''='', CHR ''='']"
| "b64_groups [a, b] =
     [b64_digit (a div 4), b64_digit ((a mod 4) * 16 + b div 16),
      b64_digit ((b mod 16) * 4), CHR ''='']"
| "b64_groups (a # b # c # bs) =
     [b64_digit (a div 4), b64_digit ((a mod 4) * 16 + b div 16),
      b64_digit ((b mod 16) * 4 + c div 64), b64_digit (c mod 64)] @ b64_groups bs"

definition EncodeToString :: "string \<Rightarrow> string" where
  "EncodeToString bs = b64_groups (map of_char bs)"

section \<open>The Cost Accumulator\<close>

text \<open>
  \<open>float64\<close> is idealised as \<open>real\<close>. What is proved about costs below concerns the
  branch taken and the table entry used, where rounding plays no part.
\<close>

record rates =
  In :: real
  Out :: real

text \<open>The price table, in the order of the source text.\<close>

definition modelCosts :: "(string \<times> rates) list" where
  "modelCosts =
     [(''gemini-1.5-flash'', \<lparr>In = 0.075, Out = 0.30\<rparr>),
      (''gemini-1.5-flash-8b'', \<lparr>In = 0.0375, Out = 0.15\<rparr>),
      (''gemini-1.5-pro'', \<lparr>In = 1.25, Out = 5.00\<rparr>),
      (''gemini-2.0-flash'', \<lparr>In = 0.10, Out = 0.40\<rparr>),
      (''gemini-2.0-flash-exp'', \<lparr>In = 0.00, Out = 0.00\<rparr>),
      (''gemini-2.0-flash-lite-preview-02-05'', \<lparr>In = 0.075, Out = 0.30\<rparr>),
      (''gemini-exp-1206'', \<lparr>In = 0.00, Out = 0.00\<rparr>),
      (''gemini-2.0-pro-exp-02-05'', \<lparr>In = 0.00, Out = 0.00\<rparr>)]"

text \<open>
  \<open>modelCosts\<close> is a Go map, and \<open>range\<close> over a map visits the entries in an order
  the language leaves unspecified, which may differ from one loop to the next. The order
  of one \<open>range\<close> loop is a parameter: any arrangement of the table.
\<close>

definition range_order :: "(string \<times> rates) list \<Rightarrow> bool" where
  "range_order order = (distinct order \<and> set order = set modelCosts)"

record usage =
  PromptTokenCount :: int
  CandidatesTokenCount :: int
  TotalTokenCount :: int

text \<open>
  The loop of \<open>calculateCost\<close>: the rates of the first entry visited whose key is the
  model name or a prefix of it, and the flag \<open>found\<close>.
\<close>

fun lookupRates :: "(string \<times> rates) list \<Rightarrow> string \<Rightarrow> rates \<times> bool" where
  "lookupRates [] modelName = (\<lparr>In = 0, Out = 0\<rparr>, False)"
| "lookupRates ((modelKey, r) # rest) modelName =
     (if modelName = modelKey \<or> HasPrefix modelName modelKey then (r, True)
      else lookupRates rest modelName)"

definition calculateCost :: "(string \<times> rates) list \<Rightarrow> string \<Rightarrow> usage option \<Rightarrow> real" where
  "calculateCost order modelName usageMetadata =
     (let (rates, found) = lookupRates order modelName
      in if \<not> found \<or> (In rates = 0 \<and> Out rates = 0) then 0
         else (case usageMetadata of
                 None \<Rightarrow> 0
               | Some u \<Rightarrow>
                   let inCost = (real_of_int (PromptTokenCount u) / 1000000) * In rates;
                       outCost = (real_of_int (CandidatesTokenCount u) / 1000000) * Out rates
                   in inCost + outCost))"

section \<open>The Cache Eligibility Policy of the native adapter\<close>

definition DefaultModel :: string where
  "DefaultModel = ''gemini-2.0-flash''"

record ChatRequest =
  SessionID :: string
  Model :: string
  Message :: string
  CacheID :: string
  UseSearch :: bool
  UseAgentic :: bool

text \<open>The defaults \<open>handleChat\<close> fills in after decoding the request.\<close>

definition request_defaults :: "ChatRequest \<Rightarrow> ChatRequest" where
  "request_defaults req =
     (let req1 = (if Model req = [] then req\<lparr>Model := DefaultModel\<rparr> else req)
      in if SessionID req1 = [] then req1\<lparr>SessionID := ''default''\<rparr> else req1)"

text \<open>
  ``Determine if we can use a cache'': the local \<open>activeCID\<close> of \<open>handleChat\<close>, from
  the request and the globals \<open>cacheName\<close> and \<open>cacheModel\<close>. The empty string is
  ``no cache''.
\<close>

definition activeCID :: "ChatRequest \<Rightarrow> string \<Rightarrow> string \<Rightarrow> string" where
  "activeCID req cacheName cacheModel =
     (if CacheID req \<noteq> [] then CacheID req
      else if cacheName \<noteq> [] then
        (let isImageModel = Contains (Model req) ''image'';
             isDifferentFamily = (\<not> HasPrefix (Model req) (TrimSuffix cacheModel ''-001''))
         in if \<not> isImageModel \<and> \<not> isDifferentFamily then cacheName else [])
      else [])"

text \<open>
  The configuration of the upstream call. A function declaration is kept by its name;
  the four safety settings are constants of the source and the temperature is 0.2.
\<close>

datatype tool = GoogleSearch | FunctionDeclarations "string list"

record config =
  Temperature :: "real option"
  SafetySettings :: "(string \<times> string) list"
  CachedContent :: string
  Tools :: "tool list"

definition permissive_safety :: "(string \<times> string) list" where
  "permissive_safety =
     [(''HARM_CATEGORY_HARASSMENT'', ''BLOCK_NONE''),
      (''HARM_CATEGORY_HATE_SPEECH'', ''BLOCK_NONE''),
      (''HARM_CATEGORY_SEXUALLY_EXPLICIT'', ''BLOCK_NONE''),
      (''HARM_CATEGORY_DANGEROUS_CONTENT'', ''BLOCK_NONE'')]"

definition chat_config :: "ChatRequest \<Rightarrow> string \<Rightarrow> config" where
  "chat_config req cid =
     (let tools0 = (if UseSearch req then [GoogleSearch] else []);
          cached = (if cid \<noteq> [] \<and> \<not> UseAgentic req \<and> \<not> UseSearch req then cid else []);
          tools =
            (if UseAgentic req then
               tools0 @ [FunctionDeclarations
                          ([''write_file''] @
                           (if cid = [] then [''list_files'', ''read_file''] else []))]
             else tools0)
      in \<lparr>Temperature = Some 0.2, SafetySettings = permissive_safety,
          CachedContent = cached, Tools = tools\<rparr>)"

section \<open>Model names in the OpenAI-compatible adapter\<close>

text \<open>
  The same block opens \<open>handleOpenAIChat\<close> (after the branch to streaming) and
  \<open>handleOpenAIStream\<close>. The buffered handler answers a blocked name with status 400,
  the streaming one with one error frame; both then return.
\<close>

definition is_experimental :: "string \<Rightarrow> bool" where
  "is_experimental model =
     (Contains model ''-exp'' \<or> Contains model ''experimental'' \<or>
      Contains model ''2.0-flash-exp'' \<or> Contains model ''2.0-pro-exp'')"

definition handleOpenAIChat_model :: "string \<Rightarrow> string \<Rightarrow> (nat \<times> string) + string" where
  "handleOpenAIChat_model reqModel cacheModel =
     (if HasPrefix reqModel ''gemini-'' then
        (if is_experimental reqModel then Inl (400, ''Experimental models are not allowed'')
         else Inr reqModel)
      else Inr (if cacheModel = [] then DefaultModel else cacheModel))"

definition handleOpenAIStream_model :: "string \<Rightarrow> string \<Rightarrow> string + string" where
  \<open>handleOpenAIStream_model reqModel cacheModel =
     (if HasPrefix reqModel ''gemini-'' then
        (if is_experimental reqModel then
           Inl (''data: {"error": "Experimental models are not allowed"}'' @ [CHR 0x0A, CHR 0x0A])
         else Inr reqModel)
      else Inr (if cacheModel = [] then DefaultModel else cacheModel))\<close>

section \<open>The upstream model capability\<close>

text \<open>
  The types of the provider's client library that the handlers read, reduced to the fields
  they read. A value of interface type in the arguments of a function call is either a
  string or something else; \<open>args["path"].(string)\<close> with its second result dropped is
  the string, or the empty string when the key is missing or holds another type.
\<close>

datatype any = AString string | AOther

record function_call =
  Name :: string
  Args :: "(string \<times> any) list"

definition arg_string :: "(string \<times> any) list \<Rightarrow> string \<Rightarrow> string" where
  "arg_string args k = (case map_of args k of Some (AString s) \<Rightarrow> s | _ \<Rightarrow> [])"

record blob =
  MIMEType :: string
  Data :: "string option"

record function_response =
  ResponseName :: string
  Response :: tool_result

record part =
  Text :: string
  Thought :: bool
  InlineData :: "blob option"
  FunctionCall :: "function_call option"
  FunctionResponse :: "function_response option"

definition text_part :: "string \<Rightarrow> part" where
  "text_part t =
     \<lparr>Text = t, Thought = False, InlineData = None, FunctionCall = None,
      FunctionResponse = None\<rparr>"

definition response_part :: "string \<Rightarrow> tool_result \<Rightarrow> part" where
  "response_part n r =
     \<lparr>Text = [], Thought = False, InlineData = None, FunctionCall = None,
      FunctionResponse = Some \<lparr>ResponseName = n, Response = r\<rparr>\<rparr>"

record content =
  Parts :: "part list"
  Role :: string

record candidate =
  Content :: "content option"

record response =
  Candidates :: "candidate list"
  UsageMetadata :: "usage option"

text \<open>
  The parts of the first candidate, when it has content. The library's accessors
  \<open>Text()\<close> and \<open>FunctionCalls()\<close> read them: the first joins the text of the parts that
  are not thoughts, the second collects the function calls in order.
\<close>

definition first_parts :: "response \<Rightarrow> part list" where
  "first_parts res =
     (case Candidates res of
        [] \<Rightarrow> []
      | c # cs \<Rightarrow> (case Content c of None \<Rightarrow> [] | Some ct \<Rightarrow> Parts ct))"

definition response_text :: "response \<Rightarrow> string" where
  "response_text res = concat (map Text (filter (\<lambda>p. \<not> Thought p) (first_parts res)))"

definition FunctionCalls :: "response \<Rightarrow> function_call list" where
  "FunctionCalls res = List.map_filter FunctionCall (first_parts res)"

text \<open>
  A chat with the provider is a state \<open>'c\<close> of the library: \<open>Create\<close> opens it from a
  model name, a configuration and the prior history, \<open>SendMessage\<close> submits parts and
  answers with a response and the chat after the exchange or with an error, \<open>History\<close>
  reads the turns back.
\<close>

record 'c upstream =
  Create :: "string \<Rightarrow> config \<Rightarrow> content list \<Rightarrow> string + 'c"
  SendMessage :: "'c \<Rightarrow> part list \<Rightarrow> string + (response \<times> 'c)"
  History :: "'c \<Rightarrow> content list"

section \<open>Tool dispatch\<close>

text \<open>
  The chain of comparisons on the tool name, which the source repeats in each handler.
\<close>

definition dispatch_tool ::
  "'w os_env \<Rightarrow> string \<Rightarrow> 'w \<Rightarrow> function_call \<Rightarrow> tool_result \<times> 'w" where
  "dispatch_tool os projectRoot w funcCall =
     (if Name funcCall = ''list_files'' then
        (case toolListFiles os projectRoot w (arg_string (Args funcCall) ''path'') of
           (r, calls, w') \<Rightarrow> (r, w'))
      else if Name funcCall = ''read_file'' then
        (case toolReadFile os projectRoot w (arg_string (Args funcCall) ''path'') of
           (r, calls, w') \<Rightarrow> (r, w'))
      else if Name funcCall = ''write_file'' then
        (case toolWriteFile os projectRoot w (arg_string (Args funcCall) ''path'')
                (arg_string (Args funcCall) ''content'') of
           (r, calls, w') \<Rightarrow> (r, w'))
      else (ToolError ''unknown tool'', w))"

text \<open>
  The inner loop over the function calls of one response: every call is executed in
  order, its result becomes one function-response part, and (in \<open>handleChat\<close>) its name
  is logged.
\<close>

fun run_calls ::
  "'w os_env \<Rightarrow> string \<Rightarrow> 'w \<Rightarrow> function_call list \<Rightarrow> string list \<times> part list \<times> 'w" where
  "run_calls os projectRoot w [] = ([], [], w)"
| "run_calls os projectRoot w (funcCall # rest) =
     (case dispatch_tool os projectRoot w funcCall of
        (funcResult, w1) \<Rightarrow>
          (case run_calls os projectRoot w1 rest of
             (logs, parts, w2) \<Rightarrow>
               ((''Executed: '' @ Name funcCall) # logs,
                response_part (Name funcCall) funcResult # parts, w2)))"

section \<open>The Turn Loop of the native adapter\<close>

record ImageData =
  MimeType :: string
  ImageBase64 :: string

text \<open>The locals of \<open>handleChat\<close> that its loop reads and writes.\<close>

record ('c, 'w) turn =
  chat :: 'c
  world :: 'w
  res :: response
  finalResponse :: string
  toolLogs :: "string list"
  images :: "ImageData list"
  requestCost :: real
  respToks :: int
  totalToks :: int

definition inline_images :: "response \<Rightarrow> ImageData list" where
  "inline_images r =
     List.map_filter
       (\<lambda>p. case InlineData p of
               None \<Rightarrow> None
             | Some b \<Rightarrow>
                 (case Data b of
                    None \<Rightarrow> None
                  | Some d \<Rightarrow> Some \<lparr>MimeType = MIMEType b, ImageBase64 = EncodeToString d\<rparr>))
       (first_parts r)"

definition no_content :: "response \<Rightarrow> bool" where
  "no_content r = (case Candidates r of [] \<Rightarrow> True | c # cs \<Rightarrow> Content c = None)"

definition follow_up :: "('c, 'w) turn \<Rightarrow> response \<Rightarrow> 'c \<Rightarrow> ('c, 'w) turn" where
  "follow_up t r c =
     (case UsageMetadata r of
        None \<Rightarrow> t\<lparr>res := r, chat := c\<rparr>
      | Some u \<Rightarrow>
          t\<lparr>res := r, chat := c,
            respToks := respToks t + CandidatesTokenCount u,
            totalToks := TotalTokenCount u\<rparr>)"

text \<open>
  The \<open>for { ... }\<close> of \<open>handleChat\<close>. It has no exit but its three \<open>break\<close>s, so
  the model is a partial function: \<open>None\<close> is a loop that never leaves. \<open>orders\<close>
  gives the order in which each successive call of \<open>calculateCost\<close> visits the price
  table.
\<close>

partial_function (option) handleChat_loop ::
  "'c upstream \<Rightarrow> 'w os_env \<Rightarrow> string \<Rightarrow> string \<Rightarrow> (nat \<Rightarrow> (string \<times> rates) list) \<Rightarrow>
   ('c, 'w) turn \<Rightarrow> ('c, 'w) turn option" where
  "handleChat_loop up os projectRoot model orders t =
     (let t1 = t\<lparr>requestCost :=
                   requestCost t + calculateCost (orders 0) model (UsageMetadata (res t))\<rparr>
      in if no_content (res t) then Some t1
         else if FunctionCalls (res t) \<noteq> [] then
           (case run_calls os projectRoot (world t) (FunctionCalls (res t)) of
              (logs, funcResponses, w') \<Rightarrow>
                (let t2 = t1\<lparr>toolLogs := toolLogs t @ logs, world := w'\<rparr>
                 in case SendMessage up (chat t) funcResponses of
                      Inl err \<Rightarrow>
                        Some (t2\<lparr>finalResponse := ''Error after tool execution: '' @ err\<rparr>)
                    | Inr (r, c) \<Rightarrow>
                        handleChat_loop up os projectRoot model (\<lambda>n. orders (Suc n))
                          (follow_up t2 r c)))
         else Some (t1\<lparr>finalResponse := response_text (res t),
                       images := images t @ inline_images (res t)\<rparr>))"

text \<open>The fallback texts after the loop.\<close>

definition empty_warning :: string where
  "empty_warning =
     ''[System Warning: Model returned empty content. This may be a safety block or API glitch.]''"

definition finish_response :: "string \<Rightarrow> nat \<Rightarrow> nat \<Rightarrow> string" where
  "finish_response final nTools nImages =
     (let f = TrimSpace final
      in if f = [] \<and> nTools = 0 \<and> nImages = 0 then empty_warning
         else if f = [] \<and> nTools > 0 then
           ''[Executed '' @ itoa nTools @ '' tool(s) but model provided no summary.]''
         else if f = [] \<and> nImages > 0 then
           ''[Generated '' @ itoa nImages @ '' image(s)]''
         else f)"

section \<open>The native chat handler\<close>

text \<open>
  The globals of the server that the handlers read and write. A session that was never
  stored reads as the empty history.
\<close>

record globals =
  sessions :: "string \<rightharpoonup> content list"
  totalCost :: real
  cacheName :: string
  cacheModel :: string
  projectRoot :: string

record ChatResponse =
  ReplyText :: string
  ReplyImages :: "ImageData list"
  ToolCalls :: "string list"
  PromptTokens :: int
  ResponseTokens :: int
  TotalTokens :: int
  Cost :: real
  TotalCost :: real

text \<open>A handler answers with \<open>http.Error\<close> (a status and a message) or with its JSON body.\<close>

datatype 'a http = HttpError nat string | HttpOK 'a | HttpPanic

text \<open>The text sent upstream: an empty message is replaced.\<close>

definition user_message :: "ChatRequest \<Rightarrow> string" where
  "user_message req = (if Message req = [] then ''Hello'' else Message req)"

definition session_history :: "globals \<Rightarrow> string \<Rightarrow> content list" where
  "session_history g sid = (case sessions g sid of None \<Rightarrow> [] | Some h \<Rightarrow> h)"

definition first_turn :: "'c \<Rightarrow> 'w \<Rightarrow> response \<Rightarrow> ('c, 'w) turn" where
  "first_turn c w r =
     \<lparr>chat = c, world = w, res = r, finalResponse = [], toolLogs = [], images = [],
      requestCost = 0,
      respToks = (case UsageMetadata r of None \<Rightarrow> 0 | Some u \<Rightarrow> CandidatesTokenCount u),
      totalToks = (case UsageMetadata r of None \<Rightarrow> 0 | Some u \<Rightarrow> TotalTokenCount u)\<rparr>"

text \<open>
  \<open>handleChat\<close> from the decoded request on. Logging and the debug file are left out.
  The result is the answer, the globals and the world after the request; \<open>None\<close> when
  the loop never leaves.
\<close>

definition handleChat ::
  "'c upstream \<Rightarrow> 'w os_env \<Rightarrow> (nat \<Rightarrow> (string \<times> rates) list) \<Rightarrow> globals \<Rightarrow> 'w \<Rightarrow>
   ChatRequest \<Rightarrow> (ChatResponse http \<times> globals \<times> 'w) option" where
  "handleChat up os orders g w req0 =
     (let req = request_defaults req0;
          history = session_history g (SessionID req);
          cid = activeCID req (cacheName g) (cacheModel g);
          cfg = chat_config req cid
      in case Create up (Model req) cfg history of
           Inl err \<Rightarrow> Some (HttpError 500 (''Failed to create chat: '' @ err), g, w)
         | Inr c0 \<Rightarrow>
             (case SendMessage up c0 [text_part (user_message req)] of
                Inl err \<Rightarrow> Some (HttpError 500 err, g, w)
              | Inr (r, c1) \<Rightarrow>
                  (case handleChat_loop up os (projectRoot g) (Model req) orders
                          (first_turn c1 w r) of
                     None \<Rightarrow> None
                   | Some t \<Rightarrow>
                       (let final = finish_response (finalResponse t) (length (toolLogs t))
                                      (length (images t));
                            g1 = g\<lparr>sessions := (sessions g)(SessionID req \<mapsto> History up (chat t)),
                                   totalCost := totalCost g + requestCost t\<rparr>
                        in Some (HttpOK
                                   \<lparr>ReplyText = final, ReplyImages = images t,
                                    ToolCalls = toolLogs t,
                                    PromptTokens =
                                      (case UsageMetadata r of
                                         None \<Rightarrow> 0 | Some u \<Rightarrow> PromptTokenCount u),
                                    ResponseTokens = respToks t, TotalTokens = totalToks t,
                                    Cost = requestCost t, TotalCost = totalCost g1\<rparr>,
                                 g1, world t)))))"

section \<open>The buffered OpenAI-compatible handler\<close>

record OpenAIMessage =
  MsgRole :: string
  MsgContent :: string

record OpenAIChatRequest =
  ReqModel :: string
  Messages :: "OpenAIMessage list"
  Stream :: bool

text \<open>
  Of the response, the fields that do not come from the clock: the model, the one
  choice's message content and finish reason, and the usage.
\<close>

record OpenAIChatResponse =
  RespModel :: string
  ChoiceRole :: string
  ChoiceContent :: string
  FinishReason :: string
  UsagePromptTokens :: int
  UsageCompletionTokens :: int
  UsageTotalTokens :: int

definition last_user_message :: "OpenAIMessage list \<Rightarrow> string" where
  "last_user_message msgs =
     foldl (\<lambda>userMsg msg. if MsgRole msg = ''user'' then MsgContent msg else userMsg) [] msgs"

text \<open>
  The \<open>for { ... }\<close> of \<open>handleOpenAIChat\<close>, on the chat, the world and the variable
  \<open>res\<close>. It ends with the response text; after a failed re-submission \<open>res\<close> is
  the library's nil response, written \<open>None\<close>.
\<close>

partial_function (option) handleOpenAIChat_loop ::
  "'c upstream \<Rightarrow> 'w os_env \<Rightarrow> string \<Rightarrow> 'c \<times> 'w \<times> response \<Rightarrow>
   ('c \<times> 'w \<times> response option \<times> string) option" where
  "handleOpenAIChat_loop up os rootDir st =
     (case st of
        (c, w, r) \<Rightarrow>
          if FunctionCalls r = [] then Some (c, w, Some r, response_text r)
          else
            (case run_calls os rootDir w (FunctionCalls r) of
               (logs, funcResponses, w') \<Rightarrow>
                 (case SendMessage up c funcResponses of
                    Inl err \<Rightarrow> Some (c, w', None, ''Error after tool execution: '' @ err)
                  | Inr (r', c') \<Rightarrow> handleOpenAIChat_loop up os rootDir (c', w', r'))))"

text \<open>
  \<open>handleOpenAIChat\<close> for a decoded request that does not ask for streaming. Agentic
  tools are always declared and no cache is attached. Reading the usage of a nil
  response panics.
\<close>

definition openai_config :: config where
  "openai_config =
     \<lparr>Temperature = None, SafetySettings = permissive_safety, CachedContent = [],
      Tools = [FunctionDeclarations [''write_file'', ''list_files'', ''read_file''] ]\<rparr>"

definition handleOpenAIChat ::
  "'c upstream \<Rightarrow> 'w os_env \<Rightarrow> globals \<Rightarrow> 'w \<Rightarrow> OpenAIChatRequest \<Rightarrow>
   (OpenAIChatResponse http \<times> globals \<times> 'w) option" where
  "handleOpenAIChat up os g w req =
     (let userMsg = last_user_message (Messages req)
      in case handleOpenAIChat_model (ReqModel req) (cacheModel g) of
           Inl (status, msg) \<Rightarrow> Some (HttpError status msg, g, w)
         | Inr model \<Rightarrow>
             (case Create up model openai_config (session_history g ''openai-compat'') of
                Inl err \<Rightarrow> Some (HttpError 500 err, g, w)
              | Inr c0 \<Rightarrow>
                  (case SendMessage up c0 [text_part userMsg] of
                     Inl err \<Rightarrow> Some (HttpError 500 err, g, w)
                   | Inr (r, c1) \<Rightarrow>
                       (case handleOpenAIChat_loop up os (projectRoot g) (c1, w, r) of
                          None \<Rightarrow> None
                        | Some (c, w', lastRes, responseText) \<Rightarrow>
                            (let g1 = g\<lparr>sessions :=
                                          (sessions g)(''openai-compat'' \<mapsto> History up c)\<rparr>
                             in case lastRes of
                                  None \<Rightarrow> Some (HttpPanic, g1, w')
                                | Some r' \<Rightarrow>
                                    (let u = (case UsageMetadata r' of
                                                None \<Rightarrow> (0, 0, 0)
                                              | Some m \<Rightarrow>
                                                  (PromptTokenCount m, CandidatesTokenCount m,
                                                   TotalTokenCount m))
                                     in Some (HttpOK
                                                \<lparr>RespModel = model, ChoiceRole = ''assistant'',
                                                 ChoiceContent = responseText,
                                                 FinishReason = ''stop'',
                                                 UsagePromptTokens = fst u,
                                                 UsageCompletionTokens = fst (snd u),
                                                 UsageTotalTokens = snd (snd u)\<rparr>,
                                              g1, w')))))))"

section \<open>Scripted collaborators\<close>

text \<open>
  Stand-ins for the two external collaborators, for the concrete cases below. The stub
  file system holds one large file and one small one and accepts every write.
\<close>

definition stub_os :: "unit os_env" where
  "stub_os =
     \<lparr>ReadDir = (\<lambda>w p. Inr [(''docs'', True), (''notes.txt'', False)]),
      Stat = (\<lambda>w p. if p = ''/srv/app/big.bin'' then Inr 1000001 else Inr 5),
      ReadFile = (\<lambda>w p. if p = ''/srv/app/big.bin'' then Inr (replicate 1000001 CHR ''a'')
                         else Inr ''hello''),
      MkdirAll = (\<lambda>w p. (None, w)),
      WriteFile = (\<lambda>w p c. (None, w))\<rparr>"

definition call_response :: response where
  "call_response =
     \<lparr>Candidates =
        [\<lparr>Content = Some
            \<lparr>Parts = [\<lparr>Text = [], Thought = False, InlineData = None,
                       FunctionCall = Some \<lparr>Name = ''list_files'', Args = [(''path'', AString ''.'')]\<rparr>,
                       FunctionResponse = None\<rparr>],
             Role = ''model''\<rparr>\<rparr>],
      UsageMetadata = None\<rparr>"

definition text_response :: "string \<Rightarrow> response" where
  "text_response s =
     \<lparr>Candidates = [\<lparr>Content = Some \<lparr>Parts = [text_part s], Role = ''model''\<rparr>\<rparr>],
      UsageMetadata = None\<rparr>"

text \<open>A response with content whose only part is the empty text.\<close>

definition empty_answer :: response where
  "empty_answer = text_response []"

text \<open>An upstream that asks for a tool on every response.\<close>

definition calling_upstream :: "unit upstream" where
  "calling_upstream =
     \<lparr>Create = (\<lambda>m cfg h. Inr ()),
      SendMessage = (\<lambda>c ps. Inr (call_response, ())),
      History = (\<lambda>c. [])\<rparr>"

text \<open>An upstream that plays a script: the chat is the list of responses still to come.\<close>

definition scripted :: "response list \<Rightarrow> (response list) upstream" where
  "scripted script =
     \<lparr>Create = (\<lambda>m cfg h. Inr script),
      SendMessage = (\<lambda>c ps. case c of [] \<Rightarrow> Inl ''end of script'' | r # rs \<Rightarrow> Inr (r, rs)),
      History = (\<lambda>c. [])\<rparr>"

definition app_globals :: globals where
  "app_globals =
     \<lparr>sessions = Map.empty, totalCost = 0, cacheName = [], cacheModel = DefaultModel,
      projectRoot = ''/srv/app''\<rparr>"

definition plain_request :: ChatRequest where
  "plain_request =
     \<lparr>SessionID = [], Model = [], Message = [], CacheID = [], UseSearch = False,
      UseAgentic = False\<rparr>"

definition hi_request :: OpenAIChatRequest where
  "hi_request =
     \<lparr>ReqModel = ''gemini-2.0-flash'', Messages = [\<lparr>MsgRole = ''user'', MsgContent = ''hi''\<rparr>],
      Stream = False\<rparr>"

definition million_usage :: usage where
  "million_usage =
     \<lparr>PromptTokenCount = 1000000, CandidatesTokenCount = 1000000, TotalTokenCount = 2000000\<rparr>"

text \<open>Every \<open>range\<close> loop visits the price table in the order of the source text.\<close>

definition source_order :: "nat \<Rightarrow> (string \<times> rates) list" where
  "source_order n = modelCosts"

text \<open>
  An upstream asks again when it answers every submission with a response that carries
  at least one function call.
\<close>

definition asks_again :: "'c upstream \<Rightarrow> bool" where
  "asks_again up = (\<forall>c ps. \<exists>r c'. SendMessage up c ps = Inr (r, c') \<and> FunctionCalls r \<noteq> [])"

text \<open>An upstream that answers with the text it was sent and keeps it as its history.\<close>

definition echo_upstream :: "(part list) upstream" where
  "echo_upstream =
     \<lparr>Create = (\<lambda>m cfg h. Inr []),
      SendMessage = (\<lambda>c ps. Inr (text_response (concat (map Text ps)), ps)),
      History = (\<lambda>c. [\<lparr>Parts = c, Role = ''user''\<rparr>])\<rparr>"

text \<open>What a caller sees of a handler's outcome.\<close>

definition reply_text :: "(ChatResponse http \<times> globals \<times> 'w) option \<Rightarrow> string option" where
  "reply_text out =
     (case out of Some (HttpOK reply, g, w) \<Rightarrow> Some (ReplyText reply) | _ \<Rightarrow> None)"

definition openai_content ::
  "(OpenAIChatResponse http \<times> globals \<times> 'w) option \<Rightarrow> string option" where
  "openai_content out =
     (case out of Some (HttpOK reply, g, w) \<Rightarrow> Some (ChoiceContent reply) | _ \<Rightarrow> None)"

definition total_after :: "('a http \<times> globals \<times> 'w) option \<Rightarrow> real option" where
  "total_after out = (case out of Some (reply, g, w) \<Rightarrow> Some (totalCost g) | None \<Rightarrow> None)"

text \<open>
  An element of a cleaned absolute path: not empty, not \<open>.\<close> or \<open>..\<close>, and free of
  the separator.
\<close>

definition plain :: "string \<Rightarrow> bool" where
  "plain c = (c \<noteq> [] \<and> c \<noteq> ''.'' \<and> c \<noteq> ''..'' \<and> CHR ''/'' \<notin> set c)"

text \<open>
  A path is within the root when it is the root or continues it after a separator.
\<close>

definition within_root :: "string \<Rightarrow> string \<Rightarrow> bool" where
  "within_root rt p = (p = rt \<or> HasPrefix p (rt @ ''/''))"

text \<open>
  A plain answer that carries usage metadata.
\<close>

definition billed_answer :: response where
  "billed_answer = (text_response ''ok'')\<lparr>UsageMetadata := Some million_usage\<rparr>"

text \<open>
  The history stored for a session after a request.
\<close>

definition session_after :: "(ChatResponse http \<times> globals \<times> 'w) option \<Rightarrow> string \<Rightarrow> content list option" where
  "session_after out sid = (case out of Some (reply, g, w) \<Rightarrow> sessions g sid | None \<Rightarrow> None)"

section \<open>Properties of the Tool Executor\<close>

lemma list_denied:
  "\<not> HasPrefix (Join [rt, Clean (if rel = [] then ''.'' else rel)]) rt \<Longrightarrow>
   toolListFiles os rt w rel = (AccessDenied, [], w)"
  unfolding toolListFiles_def Let_def by (simp del: Join.simps)

lemma list_calls:
  "HasPrefix (Join [rt, Clean (if rel = [] then ''.'' else rel)]) rt \<Longrightarrow>
   fst (snd (toolListFiles os rt w rel)) =
     [CallReadDir (Join [rt, Clean (if rel = [] then ''.'' else rel)])]"
  unfolding toolListFiles_def Let_def by (simp del: Join.simps split: sum.split)

lemma read_denied:
  "\<not> HasPrefix (Join [rt, Clean rel]) rt \<Longrightarrow> toolReadFile os rt w rel = (AccessDenied, [], w)"
  unfolding toolReadFile_def Let_def by (simp del: Join.simps)

lemma read_calls:
  "HasPrefix (Join [rt, Clean rel]) rt \<Longrightarrow>
   fst (snd (toolReadFile os rt w rel)) \<noteq> [] \<and>
   set (fst (snd (toolReadFile os rt w rel)))
     \<subseteq> {CallStat (Join [rt, Clean rel]), CallReadFile (Join [rt, Clean rel])}"
  unfolding toolReadFile_def Let_def by (simp del: Join.simps split: sum.split)

lemma write_denied:
  "\<not> HasPrefix (Join [rt, Clean rel]) rt \<Longrightarrow>
   toolWriteFile os rt w rel c = (AccessDenied, [], w)"
  unfolding toolWriteFile_def Let_def by (simp del: Join.simps)

lemma write_calls:
  "HasPrefix (Join [rt, Clean rel]) rt \<Longrightarrow>
   fst (snd (toolWriteFile os rt w rel c)) \<noteq> [] \<and>
   set (fst (snd (toolWriteFile os rt w rel c)))
     \<subseteq> {CallMkdirAll (Dir (Join [rt, Clean rel])), CallWriteFile (Join [rt, Clean rel]) c}"
  unfolding toolWriteFile_def Let_def
  by (simp del: Join.simps split: prod.split option.split)

lemma Join_root_example:
  "Join [''/srv/app'', Clean ''docs/../notes.txt''] = ''/srv/app/notes.txt''"
  by (simp add: Clean_def clean_step_def)

text \<open>
  A path with \<open>..\<close> elements that cancel inside the root is not refused: under the root
  \<open>/srv/app\<close> the path \<open>docs/../notes.txt\<close> resolves to \<open>/srv/app/notes.txt\<close> and
  is read, listed and written.
\<close>

theorem tool_traversal_counterexample:
  "Contains ''docs/../notes.txt'' ''../'' \<and>
   toolReadFile stub_os ''/srv/app'' () ''docs/../notes.txt'' =
     (ToolContent ''hello'',
      [CallStat ''/srv/app/notes.txt'', CallReadFile ''/srv/app/notes.txt''], ()) \<and>
   fst (toolListFiles stub_os ''/srv/app'' () ''docs/..'') \<noteq> AccessDenied \<and>
   fst (toolWriteFile stub_os ''/srv/app'' () ''docs/../notes.txt'' ''x'') \<noteq> AccessDenied"
  by (simp add: toolReadFile_def toolListFiles_def toolWriteFile_def Clean_def clean_step_def
      HasPrefix_def stub_os_def AccessDenied_def Dir_def Let_def)

lemma HasPrefix_prefix: "HasPrefix s p = prefix p s"
  by (auto simp: HasPrefix_def prefix_def) (metis append_eq_conv_conj)

lemma splitOn_nonempty: "splitOn sep s \<noteq> []"
  by (induction s) (auto split: list.splits)

lemma splitOn_append: "splitOn sep (a @ sep # b) = splitOn sep a @ splitOn sep b"
proof (induction a)
  case Nil
  show ?case by simp
next
  case (Cons x a)
  obtain h t where ht: "splitOn sep a = h # t"
    using splitOn_nonempty [of sep a] by (cases "splitOn sep a") auto
  with Cons show ?case
    by simp
qed

lemma splitOn_no_sep: "c \<in> set (splitOn sep s) \<Longrightarrow> sep \<notin> set c"
proof (induction s arbitrary: c)
  case Nil
  then show ?case by simp
next
  case (Cons x s)
  obtain h t where ht: "splitOn sep s = h # t"
    using splitOn_nonempty [of sep s] by (cases "splitOn sep s") auto
  show ?case
  proof (cases "x = sep")
    case True
    with Cons show ?thesis by auto
  next
    case False
    with Cons.prems ht have "c = x # h \<or> c \<in> set t"
      by simp
    then show ?thesis
    proof
      assume "c = x # h"
      moreover have "sep \<notin> set h"
        using Cons.IH [of h] ht by simp
      ultimately show ?thesis using False by simp
    next
      assume "c \<in> set t"
      then show ?thesis using Cons.IH [of c] ht by simp
    qed
  qed
qed

lemma splitOn_single: "sep \<notin> set c \<Longrightarrow> splitOn sep c = [c]"
  by (induction c) auto

lemma splitOn_joinWith:
  "cs \<noteq> [] \<Longrightarrow> \<forall>c \<in> set cs. sep \<notin> set c \<Longrightarrow> splitOn sep (joinWith [sep] cs) = cs"
proof (induction "[sep]" cs rule: joinWith.induct)
  case 1
  then show ?case by simp
next
  case (2 x)
  then show ?case by (simp add: splitOn_single)
next
  case (3 x y ys)
  then show ?case
    by (simp add: splitOn_append splitOn_single)
qed

lemma joinWith_snoc: "cs \<noteq> [] \<Longrightarrow> joinWith sep (cs @ [c]) = joinWith sep cs @ sep @ c"
  by (induction sep cs rule: joinWith.induct) auto

lemma clean_step_plain:
  assumes "plain c"
  shows "clean_step True st c = c # st"
proof -
  from assms have "c \<noteq> []" "c \<noteq> ''.''" "c \<noteq> ''..''"
    unfolding plain_def by blast+
  then show ?thesis
    unfolding clean_step_def by (simp only: if_False simp_thms)
qed

lemma foldl_clean_plain:
  "\<forall>c \<in> set cs. plain c \<Longrightarrow> foldl (clean_step True) st cs = rev cs @ st"
  by (induction cs arbitrary: st) (simp_all add: clean_step_plain)

lemma clean_step_keeps_plain:
  "CHR ''/'' \<notin> set x \<Longrightarrow> \<forall>c \<in> set st. plain c \<Longrightarrow> \<forall>c \<in> set (clean_step True st x). plain c"
proof -
  assume nx: "CHR ''/'' \<notin> set x" and st: "\<forall>c \<in> set st. plain c"
  show ?thesis
  proof (cases "x = [] \<or> x = ''.''")
    case True
    then have "clean_step True st x = st"
      unfolding clean_step_def by (simp only: if_True)
    with st show ?thesis by simp
  next
    case False
    show ?thesis
    proof (cases "x = ''..''")
      case True
      show ?thesis
      proof (cases st)
        case Nil
        with False True have "clean_step True st x = []"
          unfolding clean_step_def by simp
        then show ?thesis by simp
      next
        case (Cons prev below)
        with st have "plain prev"
          by simp
        then have "prev \<noteq> ''..''"
          unfolding plain_def by blast
        with False True Cons have "clean_step True st x = below"
          unfolding clean_step_def by simp
        with st Cons show ?thesis by simp
      qed
    next
      case nd: False
      with False have "clean_step True st x = x # st"
        unfolding clean_step_def by (simp only: if_False)
      moreover from False nd nx have "plain x"
        unfolding plain_def by blast
      ultimately show ?thesis using st by simp
    qed
  qed
qed

lemma foldl_clean_keeps_plain:
  "\<forall>x \<in> set xs. CHR ''/'' \<notin> set x \<Longrightarrow> \<forall>c \<in> set st. plain c \<Longrightarrow>
   \<forall>c \<in> set (foldl (clean_step True) st xs). plain c"
proof (induction xs arbitrary: st)
  case Nil
  then show ?case by simp
next
  case (Cons x xs)
  from Cons.prems have "\<forall>c \<in> set (clean_step True st x). plain c"
    by (intro clean_step_keeps_plain) simp_all
  with Cons show ?case
    by simp
qed

lemma Clean_rooted_form:
  assumes "y \<noteq> []" "hd y = CHR ''/''"
  shows "\<exists>cs. (\<forall>c \<in> set cs. plain c) \<and> Clean y = ''/'' @ joinWith ''/'' cs"
proof -
  let ?st = "foldl (clean_step True) [] (splitOn CHR ''/'' y)"
  have "\<forall>c \<in> set ?st. plain c"
    by (rule foldl_clean_keeps_plain) (auto dest: splitOn_no_sep)
  moreover have "Clean y = ''/'' @ joinWith ''/'' (rev ?st)"
    using assms by (simp add: Clean_def Let_def)
  ultimately show ?thesis
    by (intro exI [of _ "rev ?st"]) simp
qed

lemma Clean_trailing:
  assumes "\<forall>c \<in> set cs. plain c" "cs \<noteq> []"
  shows "Clean (''/'' @ joinWith ''/'' cs @ ''/'') = ''/'' @ joinWith ''/'' cs"
proof -
  have ns: "\<forall>c \<in> set cs. CHR ''/'' \<notin> set c"
    using assms by (simp add: plain_def)
  have "splitOn CHR ''/'' (''/'' @ joinWith ''/'' cs @ ''/'') =
      [] # splitOn CHR ''/'' (joinWith ''/'' cs @ ''/'')"
    by simp
  also have "splitOn CHR ''/'' (joinWith ''/'' cs @ ''/'') = cs @ [Nil]"
    using splitOn_append [of "CHR ''/''" "joinWith ''/'' cs" "[]"]
      splitOn_joinWith [OF assms(2) ns] by simp
  finally have s: "splitOn CHR ''/'' (''/'' @ joinWith ''/'' cs @ ''/'') = [] # cs @ [Nil]" .
  have "foldl (clean_step True) [] ([] # cs @ [Nil]) = rev cs"
    using foldl_clean_plain [OF assms(1), of "[]"] by (simp add: clean_step_def)
  with s show ?thesis
    by (simp add: Clean_def Let_def)
qed

lemma Dir_rooted:
  assumes "\<forall>x \<in> set cs. plain x" "plain c" "cs \<noteq> []"
  shows "Dir (''/'' @ joinWith ''/'' (cs @ [c])) = ''/'' @ joinWith ''/'' cs"
proof -
  let ?p = "''/'' @ joinWith ''/'' cs @ ''/'' @ c"
  have ns: "\<forall>x \<in> set (rev c). x \<noteq> CHR ''/''"
    using assms(2) by (auto simp: plain_def)
  have "rev ?p = rev c @ CHR ''/'' # rev (''/'' @ joinWith ''/'' cs)"
    by simp
  then have "takeWhile (\<lambda>x. x \<noteq> CHR ''/'') (rev ?p) = rev c"
    using takeWhile_tail [of "\<lambda>x. x \<noteq> CHR ''/''" "CHR ''/''" "rev c"] ns by simp
  then have "take (length ?p - length (takeWhile (\<lambda>x. x \<noteq> CHR ''/'') (rev ?p))) ?p =
      ''/'' @ joinWith ''/'' cs @ ''/''"
    by simp
  then have "Dir ?p = Clean (''/'' @ joinWith ''/'' cs @ ''/'')"
    unfolding Dir_def by simp
  with Clean_trailing [OF assms(1,3)] show ?thesis
    by (simp add: joinWith_snoc [OF assms(3)])
qed

text \<open>
  The parent directory of a cleaned absolute path that lies strictly below an absolute
  root is the root or lies below it.
\<close>

lemma Dir_within_root:
  assumes rt: "rt \<noteq> []" "hd rt = CHR ''/''"
    and y: "y \<noteq> []" "hd y = CHR ''/''"
    and pre: "HasPrefix (Clean y) (rt @ ''/'')"
  shows "within_root rt (Dir (Clean y))"
proof -
  obtain cs where cs: "\<forall>c \<in> set cs. plain c" and p: "Clean y = ''/'' @ joinWith ''/'' cs"
    using Clean_rooted_form [OF y] by blast
  obtain r where r: "rt = CHR ''/'' # r"
    using rt by (cases rt) auto
  show ?thesis
  proof (cases cs rule: rev_cases)
    case Nil
    with pre p r show ?thesis
      by (simp add: HasPrefix_prefix)
  next
    case (snoc cs' c)
    with cs have pc: "plain c" and pcs: "\<forall>x \<in> set cs'. plain x"
      by simp_all
    then have nc: "CHR ''/'' \<notin> set c"
      by (simp add: plain_def)
    show ?thesis
    proof (cases "cs' = []")
      case True
      with pre p r snoc have "prefix (r @ ''/'') c"
        by (simp add: HasPrefix_prefix)
      then have "CHR ''/'' \<in> set c"
        by (auto simp: prefix_def)
      with nc show ?thesis by simp
    next
      case False
      let ?D = "''/'' @ joinWith ''/'' cs'"
      have d: "Dir (Clean y) = ?D"
        using Dir_rooted [OF pcs pc False] p snoc by simp
      have "Clean y = ?D @ (''/'' @ c)"
        using p snoc joinWith_snoc [OF False, of "''/''" c] by simp
      with pre have "prefix (rt @ ''/'') (?D @ (''/'' @ c))"
        by (simp add: HasPrefix_prefix)
      then consider "prefix (rt @ ''/'') ?D"
        | us where "rt @ ''/'' = ?D @ us" "prefix us (''/'' @ c)"
        unfolding prefix_append by blast
      then show ?thesis
      proof cases
        case 1
        with d show ?thesis
          by (simp add: within_root_def HasPrefix_prefix)
      next
        case 2
        show ?thesis
        proof (cases us)
          case Nil
          with 2 have "prefix (rt @ ''/'') ?D"
            by simp
          with d show ?thesis
            by (simp add: within_root_def HasPrefix_prefix)
        next
          case (Cons u us')
          with 2 have u: "u = CHR ''/''" and pu: "prefix us' c"
            by simp_all
          show ?thesis
          proof (cases "us' = []")
            case True
            with 2 Cons u have "rt = ?D"
              by simp
            with d show ?thesis
              by (simp add: within_root_def)
          next
            case False
            from 2 Cons have "last (rt @ ''/'') = last (?D @ u # us')"
              by simp
            with False have "last us' = CHR ''/''"
              by simp
            with False have "CHR ''/'' \<in> set us'"
              using last_in_set by metis
            with pu have "CHR ''/'' \<in> set c"
              by (auto simp: prefix_def)
            with nc show ?thesis by simp
          qed
        qed
      qed
    qed
  qed
qed

lemma within_root_HasPrefix: "within_root rt p \<Longrightarrow> HasPrefix p rt"
  by (auto simp: within_root_def HasPrefix_prefix dest: append_prefixD)

lemma Join_root: "rt \<noteq> [] \<Longrightarrow> Join [rt, x] = Clean (rt @ ''/'' @ x)"
  by simp

lemma write_within_root:
  assumes rt: "rt \<noteq> []" "hd rt = CHR ''/''"
    and pre: "HasPrefix (Join [rt, Clean rel]) (rt @ ''/'')"
  shows "fst (snd (toolWriteFile os rt w rel c)) \<noteq> [] \<and>
    (\<forall>call \<in> set (fst (snd (toolWriteFile os rt w rel c))). within_root rt (call_path call))"
proof -
  let ?p = "Join [rt, Clean rel]"
  have wp: "within_root rt ?p"
    using pre unfolding within_root_def by (rule disjI2)
  then have hp: "HasPrefix ?p rt"
    by (rule within_root_HasPrefix)
  have p: "?p = Clean (rt @ ''/'' @ Clean rel)"
    using rt(1) by (rule Join_root)
  have "within_root rt (Dir (Clean (rt @ ''/'' @ Clean rel)))"
  proof (rule Dir_within_root [OF rt])
    show "rt @ ''/'' @ Clean rel \<noteq> []"
      using rt(1) by simp
    show "hd (rt @ ''/'' @ Clean rel) = CHR ''/''"
      using rt by simp
    show "HasPrefix (Clean (rt @ ''/'' @ Clean rel)) (rt @ ''/'')"
      using pre p by (simp del: Join.simps)
  qed
  then have wd: "within_root rt (Dir ?p)"
    using p by (simp del: Join.simps)
  from write_calls [OF hp, of os w c] wp wd show ?thesis
    by (auto simp del: Join.simps)
qed

text \<open>
  Claim C1, as the code has it. Each of the three tools joins the cleaned client path to
  the root and cleans the result (for \<open>list_files\<close> an empty path stands for \<open>.\<close>).
  When the resolved path does not have the root as a prefix, as for
  \<open>../../etc/passwd\<close>, the tool answers \<open>AccessDenied\<close>, makes no file-system call
  and leaves the world as it was. When the resolved path is the root or lies below it,
  \<open>list_files\<close> and \<open>read_file\<close> go on, and every file-system call they make names
  a path within the root. For an absolute root and a resolved path strictly below it,
  \<open>write_file\<close> goes on, and both its calls, on the parent directory and on the path,
  name paths within the root. Nothing is said of a resolved path that extends the root's
  text without lying below it.
\<close>

theorem tool_confinement:
  "(let p = Join [rt, Clean (if rel = [] then ''.'' else rel)];
        out = toolListFiles os rt w rel
    in (\<not> HasPrefix p rt \<longrightarrow> out = (AccessDenied, [], w)) \<and>
       (within_root rt p \<longrightarrow>
          fst (snd out) \<noteq> [] \<and>
          (\<forall>call \<in> set (fst (snd out)). within_root rt (call_path call)))) \<and>
   (let p = Join [rt, Clean rel];
        out = toolReadFile os rt w rel
    in (\<not> HasPrefix p rt \<longrightarrow> out = (AccessDenied, [], w)) \<and>
       (within_root rt p \<longrightarrow>
          fst (snd out) \<noteq> [] \<and>
          (\<forall>call \<in> set (fst (snd out)). within_root rt (call_path call)))) \<and>
   (let p = Join [rt, Clean rel];
        out = toolWriteFile os rt w rel c
    in (\<not> HasPrefix p rt \<longrightarrow> out = (AccessDenied, [], w)) \<and>
       (rt \<noteq> [] \<and> hd rt = CHR ''/'' \<and> HasPrefix p (rt @ ''/'') \<longrightarrow>
          fst (snd out) \<noteq> [] \<and>
          (\<forall>call \<in> set (fst (snd out)). within_root rt (call_path call))))"
proof -
  have l: "fst (snd (toolListFiles os rt w rel)) \<noteq> [] \<and>
      (\<forall>call \<in> set (fst (snd (toolListFiles os rt w rel))). within_root rt (call_path call))"
    if "within_root rt (Join [rt, Clean (if rel = [] then ''.'' else rel)])"
    using list_calls [OF within_root_HasPrefix [OF that], of os w] that
    by (simp del: Join.simps)
  have r: "fst (snd (toolReadFile os rt w rel)) \<noteq> [] \<and>
      (\<forall>call \<in> set (fst (snd (toolReadFile os rt w rel))). within_root rt (call_path call))"
    if "within_root rt (Join [rt, Clean rel])"
    using read_calls [OF within_root_HasPrefix [OF that], of os w] that
    by (auto simp del: Join.simps)
  show ?thesis
    unfolding Let_def
    using list_denied [of rt rel os w] read_denied [of rt rel os w]
      write_denied [of rt rel os w c] l r write_within_root [of rt rel os w c]
    by blast
qed

text \<open>
  The path \<open>../../etc/passwd\<close> is refused by all three tools under the root
  \<open>/srv/app\<close>; \<open>docs/../notes.txt\<close> resolves below the root, and reading and
  writing it touch only paths within the root.
\<close>

theorem tool_confinement_witness:
  "\<not> HasPrefix (Join [''/srv/app'', Clean ''../../etc/passwd'']) ''/srv/app'' \<and>
   toolListFiles stub_os ''/srv/app'' () ''../../etc/passwd'' = (AccessDenied, [], ()) \<and>
   toolReadFile stub_os ''/srv/app'' () ''../../etc/passwd'' = (AccessDenied, [], ()) \<and>
   toolWriteFile stub_os ''/srv/app'' () ''../../etc/passwd'' ''x'' = (AccessDenied, [], ()) \<and>
   HasPrefix (Join [''/srv/app'', Clean ''docs/../notes.txt'']) ''/srv/app/'' \<and>
   list_all (\<lambda>call. within_root ''/srv/app'' (call_path call))
     (fst (snd (toolReadFile stub_os ''/srv/app'' () ''docs/../notes.txt''))) \<and>
   list_all (\<lambda>call. within_root ''/srv/app'' (call_path call))
     (fst (snd (toolWriteFile stub_os ''/srv/app'' () ''docs/../notes.txt'' ''x''))) \<and>
   fst (snd (toolWriteFile stub_os ''/srv/app'' () ''docs/../notes.txt'' ''x'')) =
     [CallMkdirAll ''/srv/app'', CallWriteFile ''/srv/app/notes.txt'' ''x'']"
proof -
  have j1: "Join [''/srv/app'', Clean ''../../etc/passwd''] = ''/etc/passwd''"
    by (simp add: Clean_def clean_step_def)
  have j2: "Join [''/srv/app'', Clean ''docs/../notes.txt''] = ''/srv/app/notes.txt''"
    by (simp add: Clean_def clean_step_def)
  have n: "\<not> HasPrefix ''/etc/passwd'' ''/srv/app''"
    by (simp add: HasPrefix_def)
  have y: "HasPrefix ''/srv/app/notes.txt'' (''/srv/app'' @ ''/'')"
    by (simp add: HasPrefix_def)
  have wr: "within_root ''/srv/app'' ''/srv/app/notes.txt''"
    by (simp add: within_root_def HasPrefix_def)
  have c: "fst (snd (toolWriteFile stub_os ''/srv/app'' () ''docs/../notes.txt'' ''x'')) =
     [CallMkdirAll ''/srv/app'', CallWriteFile ''/srv/app/notes.txt'' ''x'']"
    unfolding toolWriteFile_def j2 Let_def
    by (simp add: HasPrefix_def stub_os_def Dir_def Clean_def clean_step_def)
  note a = tool_confinement [of "''/srv/app''" "''../../etc/passwd''" stub_os "()" "''x''"]
  note b = tool_confinement [of "''/srv/app''" "''docs/../notes.txt''" stub_os "()" "''x''"]
  from a have 1: "toolListFiles stub_os ''/srv/app'' () ''../../etc/passwd'' = (AccessDenied, [], ())"
    "toolReadFile stub_os ''/srv/app'' () ''../../etc/passwd'' = (AccessDenied, [], ())"
    "toolWriteFile stub_os ''/srv/app'' () ''../../etc/passwd'' ''x'' = (AccessDenied, [], ())"
    by (simp_all add: Let_def Clean_def clean_step_def HasPrefix_def)
  from b have 2: "list_all (\<lambda>call. within_root ''/srv/app'' (call_path call))
     (fst (snd (toolReadFile stub_os ''/srv/app'' () ''docs/../notes.txt'')))"
    by (simp add: Let_def Clean_def clean_step_def HasPrefix_def within_root_def list_all_iff)
  from b have 3: "list_all (\<lambda>call. within_root ''/srv/app'' (call_path call))
     (fst (snd (toolWriteFile stub_os ''/srv/app'' () ''docs/../notes.txt'' ''x'')))"
    by (simp add: Let_def Clean_def clean_step_def HasPrefix_def within_root_def list_all_iff)
  from n y 1 2 3 c show ?thesis
    unfolding j1 j2 by simp
qed

text \<open>
  The check compares text, not path elements: a sibling directory whose name extends the
  root's name passes it, and the write lands outside the root, against the comment
  ``Always stay within projectRoot'' on each tool.
\<close>

lemma sibling_prefix_is_served:
  "toolWriteFile stub_os ''/srv/app'' () ''../app-secrets/key'' ''x'' =
     (ToolWritten ''../app-secrets/key'' 1,
      [CallMkdirAll ''/srv/app-secrets'', CallWriteFile ''/srv/app-secrets/key'' ''x''], ())"
  by (simp add: toolWriteFile_def Clean_def clean_step_def HasPrefix_def stub_os_def Dir_def Let_def)

text \<open>
  A file of 1000001 bytes is below 1 MiB and is refused as too large.
\<close>

theorem read_file_cap_counterexample:
  "(1000001::int) \<le> 1048576 \<and>
   HasPrefix (Join [''/srv/app'', Clean ''big.bin'']) ''/srv/app'' \<and>
   Stat stub_os () (Join [''/srv/app'', Clean ''big.bin'']) = Inr 1000001 \<and>
   fst (toolReadFile stub_os ''/srv/app'' () ''big.bin'') = TooLarge"
  by (simp add: toolReadFile_def Clean_def clean_step_def HasPrefix_def stub_os_def)

text \<open>
  Claim C6, as the code has it. For a path that passes the root check, \<open>read_file\<close>
  answers with the error of \<open>Stat\<close> when that fails, with \<open>TooLarge\<close> when the size
  is above 1000000 bytes, and otherwise with the content, or with the error of
  \<open>ReadFile\<close> when that fails. The errors carry the text the file system gave.
\<close>

theorem toolReadFile_cases:
  "HasPrefix (Join [rt, Clean rel]) rt \<Longrightarrow>
   fst (toolReadFile os rt w rel) =
     (case Stat os w (Join [rt, Clean rel]) of
        Inl err \<Rightarrow> ToolError err
      | Inr sz \<Rightarrow>
          if sz > 1000000 then TooLarge
          else (case ReadFile os w (Join [rt, Clean rel]) of
                  Inl err \<Rightarrow> ToolError err
                | Inr content \<Rightarrow> ToolContent content))"
  by (simp add: toolReadFile_def Let_def split: sum.splits)

text \<open>
  A small file inside the root is read.
\<close>

theorem toolReadFile_cases_witness:
  "HasPrefix (Join [''/srv/app'', Clean ''notes.txt'']) ''/srv/app'' \<and>
   fst (toolReadFile stub_os ''/srv/app'' () ''notes.txt'') = ToolContent ''hello''"
proof -
  have h: "HasPrefix (Join [''/srv/app'', Clean ''notes.txt'']) ''/srv/app''"
    by (simp add: Clean_def clean_step_def HasPrefix_def)
  show ?thesis
    using h toolReadFile_cases [OF h, of stub_os "()"]
    by (simp add: stub_os_def Clean_def clean_step_def)
qed

section \<open>Properties of the Cache Eligibility Policy\<close>

lemma Model_defaults: "Model (request_defaults req) = (if Model req = [] then DefaultModel else Model req)"
  by (simp add: request_defaults_def Let_def)

lemma flags_defaults:
  "CacheID (request_defaults req) = CacheID req"
  "UseSearch (request_defaults req) = UseSearch req"
  "UseAgentic (request_defaults req) = UseAgentic req"
  by (simp_all add: request_defaults_def Let_def)

lemma CachedContent_config:
  "CachedContent (chat_config req cid) =
     (if cid \<noteq> [] \<and> \<not> UseAgentic req \<and> \<not> UseSearch req then cid else [])"
  by (simp add: chat_config_def Let_def)

text \<open>
  Claim C2. The decision is a function of the request and the two globals. A cache
  reference is attached exactly when the request is eligible (it carries an override, or
  a cache is active and the requested model is not an image model and starts with the
  cache's model name less a trailing \<open>-001\<close>) and neither the search flag nor the
  agentic flag is set; it is omitted exactly in the other case; it is never attached when
  a tool flag is set; and the reference attached is the override when there is one and
  the active cache otherwise.
\<close>

theorem cache_policy_total:
  "(let r = request_defaults req;
        cfg = chat_config r (activeCID r cname cmodel);
        eligible = (CacheID req \<noteq> [] \<or>
                    (cname \<noteq> [] \<and> \<not> Contains (Model r) ''image'' \<and>
                     HasPrefix (Model r) (TrimSuffix cmodel ''-001'')))
    in (CachedContent cfg \<noteq> [] \<longleftrightarrow> eligible \<and> \<not> UseSearch req \<and> \<not> UseAgentic req) \<and>
       (CachedContent cfg = [] \<longleftrightarrow> \<not> eligible \<or> UseSearch req \<or> UseAgentic req) \<and>
       (UseSearch req \<or> UseAgentic req \<longrightarrow> CachedContent cfg = []) \<and>
       (CachedContent cfg \<noteq> [] \<longrightarrow>
          CachedContent cfg = (if CacheID req \<noteq> [] then CacheID req else cname)))"
  unfolding Let_def CachedContent_config flags_defaults
  by (auto simp: activeCID_def flags_defaults Let_def)

text \<open>
  With an active cache of the same family and no flags the cache is attached; with the
  search flag it is not.
\<close>

theorem cache_policy_total_witness:
  "CachedContent (chat_config (request_defaults plain_request)
      (activeCID (request_defaults plain_request) ''cachedContents/abc'' ''gemini-2.0-flash-001''))
     = ''cachedContents/abc'' \<and>
   CachedContent (chat_config (request_defaults (plain_request\<lparr>UseSearch := True\<rparr>))
      (activeCID (request_defaults (plain_request\<lparr>UseSearch := True\<rparr>)) ''cachedContents/abc''
         ''gemini-2.0-flash-001'')) = []"
  using cache_policy_total [of plain_request "''cachedContents/abc''" "''gemini-2.0-flash-001''"]
        cache_policy_total [of "plain_request\<lparr>UseSearch := True\<rparr>" "''cachedContents/abc''"
          "''gemini-2.0-flash-001''"]
  by (simp add: Let_def plain_request_def request_defaults_def DefaultModel_def HasPrefix_def
      TrimSuffix_def HasSuffix_def)

text \<open>
  An override in a request that also asks for search is not attached.
\<close>

theorem override_with_search_counterexample:
  "CacheID (plain_request\<lparr>CacheID := ''cachedContents/mine'', UseSearch := True\<rparr>) \<noteq> [] \<and>
   CachedContent
     (chat_config (request_defaults (plain_request\<lparr>CacheID := ''cachedContents/mine'', UseSearch := True\<rparr>))
        (activeCID (request_defaults (plain_request\<lparr>CacheID := ''cachedContents/mine'', UseSearch := True\<rparr>))
           [] ''gemini-2.0-flash'')) = []"
  by (simp add: plain_request_def CachedContent_config flags_defaults)

text \<open>
  Claim C3, as the code has it. An override in the request becomes the active cache
  reference whatever the server's cache and the requested model are; it is attached to
  the upstream call when neither tool flag is set, and omitted when one is.
\<close>

theorem override_precedence:
  "CacheID req \<noteq> [] \<Longrightarrow>
   activeCID (request_defaults req) cname cmodel = CacheID req \<and>
   CachedContent (chat_config (request_defaults req) (activeCID (request_defaults req) cname cmodel)) =
     (if UseSearch req \<or> UseAgentic req then [] else CacheID req)"
  by (simp add: activeCID_def CachedContent_config flags_defaults)

text \<open>
  An override is attached for an image model with no server cache.
\<close>

theorem override_precedence_witness:
  "CacheID (plain_request\<lparr>CacheID := ''cachedContents/mine'', Model := ''imagen-image''\<rparr>) \<noteq> [] \<and>
   CachedContent
     (chat_config (request_defaults (plain_request\<lparr>CacheID := ''cachedContents/mine'', Model := ''imagen-image''\<rparr>))
        (activeCID (request_defaults (plain_request\<lparr>CacheID := ''cachedContents/mine'', Model := ''imagen-image''\<rparr>))
           [] ''gemini-2.0-flash'')) = ''cachedContents/mine''"
proof -
  let ?req = "plain_request\<lparr>CacheID := ''cachedContents/mine'', Model := ''imagen-image''\<rparr>"
  have h: "CacheID ?req \<noteq> []"
    by simp
  have "CachedContent (chat_config (request_defaults ?req)
          (activeCID (request_defaults ?req) [] ''gemini-2.0-flash'')) =
        (if UseSearch ?req \<or> UseAgentic ?req then [] else CacheID ?req)"
    using override_precedence [OF h] by (rule conjunct2)
  then show ?thesis
    by (simp add: plain_request_def)
qed

section \<open>Properties of the Cost Accumulator\<close>

lemma range_order_table: "range_order modelCosts"
  by (simp add: range_order_def modelCosts_def)

lemma range_order_rev: "range_order (rev modelCosts)"
  by (simp add: range_order_def modelCosts_def insert_commute)

lemma lookupRates_none:
  "\<forall>(k, r) \<in> set order. \<not> (m = k \<or> HasPrefix m k) \<Longrightarrow> snd (lookupRates order m) = False"
  by (induction order) auto

lemma calculateCost_None: "calculateCost order m None = 0"
  by (simp add: calculateCost_def case_prod_beta)

text \<open>
  Claim C7 at the model name \<open>gemini-1.5-flash-8b\<close>, which extends two keys of the
  table. The loop stops at the first key visited that matches. Visiting the table in the
  order of the source text gives the rates of the shorter key \<open>gemini-1.5-flash\<close>;
  visiting it in the reverse order gives the rates of the longer key. The two costs for
  the same usage differ.
\<close>

theorem calculateCost_depends_on_order:
  "range_order modelCosts \<and> range_order (rev modelCosts) \<and>
   fst (lookupRates modelCosts ''gemini-1.5-flash-8b'') = \<lparr>In = 0.075, Out = 0.30\<rparr> \<and>
   fst (lookupRates (rev modelCosts) ''gemini-1.5-flash-8b'') = \<lparr>In = 0.0375, Out = 0.15\<rparr> \<and>
   calculateCost modelCosts ''gemini-1.5-flash-8b'' (Some million_usage) = 0.375 \<and>
   calculateCost (rev modelCosts) ''gemini-1.5-flash-8b'' (Some million_usage) = 0.1875"
proof -
  have a: "lookupRates modelCosts ''gemini-1.5-flash-8b'' = (\<lparr>In = 0.075, Out = 0.30\<rparr>, True)"
    by (simp add: modelCosts_def HasPrefix_def)
  have b: "lookupRates (rev modelCosts) ''gemini-1.5-flash-8b'' =
      (\<lparr>In = 0.0375, Out = 0.15\<rparr>, True)"
    by (simp add: modelCosts_def HasPrefix_def)
  have c: "calculateCost modelCosts ''gemini-1.5-flash-8b'' (Some million_usage) = 0.375"
    by (simp add: calculateCost_def a million_usage_def)
  have d: "calculateCost (rev modelCosts) ''gemini-1.5-flash-8b'' (Some million_usage) = 0.1875"
    by (simp add: calculateCost_def b million_usage_def)
  from range_order_table range_order_rev a b c d show ?thesis
    by simp
qed

text \<open>
  So the cost of one model name and one usage is not a single value.
\<close>

theorem calculateCost_depends_on_order_witness:
  "calculateCost modelCosts ''gemini-1.5-flash-8b'' (Some million_usage) \<noteq>
   calculateCost (rev modelCosts) ''gemini-1.5-flash-8b'' (Some million_usage)"
  using calculateCost_depends_on_order by simp

section \<open>Properties of the OpenAI-compatible model mapping\<close>

text \<open>
  A blocked experimental name with the \<open>gemini-\<close> prefix is answered with an error;
  no model is substituted.
\<close>

theorem openai_blocked_model_counterexample:
  "HasPrefix ''gemini-2.0-flash-exp'' ''gemini-'' \<and> is_experimental ''gemini-2.0-flash-exp'' \<and>
   handleOpenAIChat_model ''gemini-2.0-flash-exp'' ''gemini-1.5-pro'' =
     Inl (400, ''Experimental models are not allowed'') \<and>
   handleOpenAIChat_model ''gemini-2.0-flash-exp'' ''gemini-1.5-pro'' \<noteq> Inr ''gemini-1.5-pro'' \<and>
   isl (handleOpenAIStream_model ''gemini-2.0-flash-exp'' ''gemini-1.5-pro'')"
  by (simp add: handleOpenAIChat_model_def handleOpenAIStream_model_def is_experimental_def
      HasPrefix_def)

text \<open>
  Claim C8, as the code has it, for both the buffered and the streaming handler. A name
  with the prefix \<open>gemini-\<close> that is not experimental is used as it is. A name with
  the prefix that is experimental ends the request with the error ``Experimental models
  are not allowed'' (status 400, or one error frame when streaming). A name without the
  prefix is replaced by the server's cache model, or by the default model when that is
  empty.
\<close>

theorem openai_model_mapping:
  \<open>(HasPrefix m ''gemini-'' \<and> \<not> is_experimental m \<longrightarrow>
      handleOpenAIChat_model m cmodel = Inr m \<and> handleOpenAIStream_model m cmodel = Inr m) \<and>
   (HasPrefix m ''gemini-'' \<and> is_experimental m \<longrightarrow>
      handleOpenAIChat_model m cmodel = Inl (400, ''Experimental models are not allowed'') \<and>
      handleOpenAIStream_model m cmodel =
        Inl (''data: {"error": "Experimental models are not allowed"}'' @ [CHR 0x0A, CHR 0x0A])) \<and>
   (\<not> HasPrefix m ''gemini-'' \<longrightarrow>
      handleOpenAIChat_model m cmodel = Inr (if cmodel = [] then DefaultModel else cmodel) \<and>
      handleOpenAIStream_model m cmodel = Inr (if cmodel = [] then DefaultModel else cmodel))\<close>
  by (simp add: handleOpenAIChat_model_def handleOpenAIStream_model_def)

theorem openai_model_mapping_witness:
  "handleOpenAIChat_model ''gemini-1.5-pro'' [] = Inr ''gemini-1.5-pro'' \<and>
   handleOpenAIStream_model ''gpt-4'' [] = Inr ''gemini-2.0-flash'' \<and>
   handleOpenAIChat_model ''gpt-4-exp'' ''gemini-1.5-flash'' = Inr ''gemini-1.5-flash'' \<and>
   isl (handleOpenAIChat_model ''gemini-exp-1206'' [])"
  using openai_model_mapping [of "''gemini-1.5-pro''" "[]"]
        openai_model_mapping [of "''gpt-4''" "[]"]
        openai_model_mapping [of "''gpt-4-exp''" "''gemini-1.5-flash''"]
        openai_model_mapping [of "''gemini-exp-1206''" "[]"]
  by (simp add: HasPrefix_def is_experimental_def DefaultModel_def)

section \<open>Properties of the Turn Loop\<close>

lemma calls_have_content: "FunctionCalls r \<noteq> [] \<Longrightarrow> \<not> no_content r"
  by (auto simp: FunctionCalls_def first_parts_def no_content_def List.map_filter_simps
      split: list.splits option.splits)

lemma res_follow_up: "res (follow_up t r c) = r"
  by (simp add: follow_up_def split: option.split)

lemma chat_follow_up: "chat (follow_up t r c) = c"
  by (simp add: follow_up_def split: option.split)

lemma toolLogs_follow_up: "toolLogs (follow_up t r c) = toolLogs t"
  by (simp add: follow_up_def split: option.split)

lemma run_calls_logs: "length (fst (run_calls os rt w fcs)) = length fcs"
proof (induction fcs arbitrary: w)
  case Nil
  show ?case by simp
next
  case (Cons fc fcs)
  obtain r w1 where d: "dispatch_tool os rt w fc = (r, w1)"
    by (cases "dispatch_tool os rt w fc") auto
  obtain logs parts w2 where rc: "run_calls os rt w1 fcs = (logs, parts, w2)"
    by (cases "run_calls os rt w1 fcs") auto
  from Cons.IH [of w1] rc have "length logs = length fcs"
    by simp
  with d rc show ?case
    by simp
qed

lemma SendMessage_scripted: "SendMessage (scripted s) (r # rs) ps = Inr (r, rs)"
  by (simp add: scripted_def)

lemma handleChat_loop_plain:
  "\<not> no_content (res t) \<Longrightarrow> FunctionCalls (res t) = [] \<Longrightarrow>
   handleChat_loop up os rt model orders t =
     Some (t\<lparr>requestCost := requestCost t + calculateCost (orders 0) model (UsageMetadata (res t)),
             finalResponse := response_text (res t),
             images := images t @ inline_images (res t)\<rparr>)"
  by (subst handleChat_loop.simps) (simp add: Let_def)

lemma handleOpenAIChat_loop_plain:
  "FunctionCalls r = [] \<Longrightarrow>
   handleOpenAIChat_loop up os rt (c, w, r) = Some (c, w, Some r, response_text r)"
  by (subst handleOpenAIChat_loop.simps) simp

text \<open>
  When the upstream always asks again, neither loop ever leaves. The proof is by the
  induction rule of the partial function: no result can come out of a state whose
  response carries function calls.
\<close>

lemma handleChat_loop_never_leaves:
  assumes again: "asks_again up" and first: "FunctionCalls (res t) \<noteq> []"
  shows "handleChat_loop up os rt model orders t = None"
proof (rule ccontr)
  assume "handleChat_loop up os rt model orders t \<noteq> None"
  then obtain y where y: "handleChat_loop up os rt model orders t = Some y"
    by auto
  have "\<not> (asks_again up \<and> FunctionCalls (res t) \<noteq> [])"
  proof (rule handleChat_loop.raw_induct
      [where P = "\<lambda>up os rt model orders t y. \<not> (asks_again up \<and> FunctionCalls (res t) \<noteq> [])",
        OF _ y], goal_cases)
    case (1 loop up os rt model orders t y)
    show ?case
    proof
      assume h: "asks_again up \<and> FunctionCalls (res t) \<noteq> []"
      obtain logs parts w' where rc:
        "run_calls os rt (world t) (FunctionCalls (res t)) = (logs, parts, w')"
        by (cases "run_calls os rt (world t) (FunctionCalls (res t))") auto
      from h obtain r c' where s: "SendMessage up (chat t) parts = Inr (r, c')"
        and fr: "FunctionCalls r \<noteq> []"
        unfolding asks_again_def by blast
      from h have nc: "\<not> no_content (res t)"
        by (simp add: calls_have_content)
      from 1(2) h nc rc s
      obtain t2 where "loop up os rt model (\<lambda>n. orders (Suc n)) (follow_up t2 r c') = Some y"
        by (simp add: Let_def)
      from 1(1) [OF this] h fr show False
        by (simp add: res_follow_up)
    qed
  qed
  with again first show False
    by blast
qed

lemma handleOpenAIChat_loop_never_leaves:
  assumes again: "asks_again up" and first: "FunctionCalls r0 \<noteq> []"
  shows "handleOpenAIChat_loop up os rt (c0, w0, r0) = None"
proof (rule ccontr)
  assume "handleOpenAIChat_loop up os rt (c0, w0, r0) \<noteq> None"
  then obtain y where y: "handleOpenAIChat_loop up os rt (c0, w0, r0) = Some y"
    by auto
  have "\<not> (asks_again up \<and> FunctionCalls (snd (snd (c0, w0, r0))) \<noteq> [])"
  proof (rule handleOpenAIChat_loop.raw_induct
      [where P = "\<lambda>up os rt st y. \<not> (asks_again up \<and> FunctionCalls (snd (snd st)) \<noteq> [])",
        OF _ y], goal_cases)
    case (1 loop up os rt st y)
    show ?case
    proof
      assume h: "asks_again up \<and> FunctionCalls (snd (snd st)) \<noteq> []"
      obtain c w r where st: "st = (c, w, r)"
        by (cases st) auto
      obtain logs parts w' where rc: "run_calls os rt w (FunctionCalls r) = (logs, parts, w')"
        by (cases "run_calls os rt w (FunctionCalls r)") auto
      from h obtain r' c' where s: "SendMessage up c parts = Inr (r', c')"
        and fr: "FunctionCalls r' \<noteq> []"
        unfolding asks_again_def by blast
      from 1(2) h st rc s have "loop up os rt (c', w', r') = Some y"
        by simp
      from 1(1) [OF this] h fr show False
        by simp
    qed
  qed
  with again first show False
    by simp
qed

text \<open>
  Against a script of responses with function calls followed by one without, the loop
  ends after consuming exactly these responses and has logged every call.
\<close>

lemma scripted_rounds:
  "\<forall>r \<in> set calls. FunctionCalls r \<noteq> [] \<Longrightarrow> FunctionCalls final = [] \<Longrightarrow>
   res t # chat t = calls @ final # rest \<Longrightarrow>
   \<exists>t'. handleChat_loop (scripted s) os rt model orders t = Some t' \<and>
        res t' = final \<and> chat t' = rest \<and>
        length (toolLogs t') = length (toolLogs t) + sum_list (map (\<lambda>r. length (FunctionCalls r)) calls)"
proof (induction calls arbitrary: t orders)
  case Nil
  then have "res t = final" "chat t = rest"
    by simp_all
  with Nil show ?case
    by (subst handleChat_loop.simps) (simp add: Let_def)
next
  case (Cons r calls)
  then have rt: "res t = r" and ct: "chat t = calls @ final # rest"
    by simp_all
  from Cons.prems rt have fc: "FunctionCalls (res t) \<noteq> []"
    by simp
  then have nc: "\<not> no_content (res t)"
    by (rule calls_have_content)
  obtain logs parts w' where rc:
    "run_calls os rt (world t) (FunctionCalls (res t)) = (logs, parts, w')"
    by (cases "run_calls os rt (world t) (FunctionCalls (res t))") auto
  have ll: "length logs = length (FunctionCalls r)"
    using run_calls_logs [of os rt "world t" "FunctionCalls (res t)"] rc rt by simp
  obtain nxt remaining where nx: "calls @ final # rest = nxt # remaining"
    by (cases "calls @ final # rest") auto
  define t2 where "t2 = t\<lparr>requestCost :=
      requestCost t + calculateCost (orders 0) model (UsageMetadata (res t)),
      toolLogs := toolLogs t @ logs, world := w'\<rparr>"
  have unfold: "handleChat_loop (scripted s) os rt model orders t =
      handleChat_loop (scripted s) os rt model (\<lambda>n. orders (Suc n)) (follow_up t2 nxt remaining)"
    by (subst handleChat_loop.simps)
      (simp add: Let_def fc nc rc ct nx SendMessage_scripted t2_def)
  have "res (follow_up t2 nxt remaining) # chat (follow_up t2 nxt remaining) = calls @ final # rest"
    by (simp add: res_follow_up chat_follow_up nx)
  from Cons.IH [OF _ Cons.prems(2) this, of "\<lambda>n. orders (Suc n)"] Cons.prems(1)
  obtain t' where "handleChat_loop (scripted s) os rt model (\<lambda>n. orders (Suc n))
        (follow_up t2 nxt remaining) = Some t'"
    and "res t' = final" and "chat t' = rest"
    and "length (toolLogs t') = length (toolLogs (follow_up t2 nxt remaining)) +
          sum_list (map (\<lambda>r. length (FunctionCalls r)) calls)"
    by auto
  then show ?case
    by (simp add: unfold toolLogs_follow_up t2_def ll)
qed

lemma asks_again_calling: "asks_again calling_upstream"
  by (simp add: asks_again_def calling_upstream_def call_response_def FunctionCalls_def
      first_parts_def List.map_filter_simps)

lemma FunctionCalls_call_response: "FunctionCalls call_response \<noteq> []"
  by (simp add: call_response_def FunctionCalls_def first_parts_def List.map_filter_simps)

lemma FunctionCalls_text_response: "FunctionCalls (text_response s) = []"
  by (simp add: text_response_def FunctionCalls_def first_parts_def List.map_filter_simps
      text_part_def)

lemma no_content_text_response: "\<not> no_content (text_response s)"
  by (simp add: text_response_def no_content_def)

lemma response_text_text_response: "response_text (text_response s) = s"
  by (simp add: text_response_def response_text_def first_parts_def text_part_def)

lemma inline_images_text_response: "inline_images (text_response s) = []"
  by (simp add: inline_images_def text_response_def first_parts_def text_part_def
      List.map_filter_simps)

lemma UsageMetadata_text_response: "UsageMetadata (text_response s) = None"
  by (simp add: text_response_def)

lemma handleChat_loop_text_response:
  "handleChat_loop up os rt model orders (first_turn c w (text_response s)) =
     Some ((first_turn c w (text_response s))\<lparr>finalResponse := s\<rparr>)"
  by (simp add: handleChat_loop_plain first_turn_def no_content_text_response
      FunctionCalls_text_response response_text_text_response calculateCost_None
      inline_images_text_response UsageMetadata_text_response)

text \<open>
  With an upstream that asks for a tool on every response, neither handler ever answers:
  no error is raised and no cap ends the turn.
\<close>

theorem tool_ping_pong_counterexample:
  "handleChat calling_upstream stub_os source_order app_globals ()
     (plain_request\<lparr>Message := ''list the files'', UseAgentic := True\<rparr>) = None \<and>
   handleOpenAIChat calling_upstream stub_os app_globals () hi_request = None"
proof
  have "handleChat_loop calling_upstream stub_os ''/srv/app'' DefaultModel source_order
          (first_turn () () call_response) = None"
    by (rule handleChat_loop_never_leaves [OF asks_again_calling])
      (simp add: first_turn_def FunctionCalls_call_response)
  then show "handleChat calling_upstream stub_os source_order app_globals ()
     (plain_request\<lparr>Message := ''list the files'', UseAgentic := True\<rparr>) = None"
    by (simp add: handleChat_def Let_def calling_upstream_def plain_request_def
        request_defaults_def app_globals_def)
next
  have "handleOpenAIChat_loop calling_upstream stub_os ''/srv/app'' ((), (), call_response) = None"
    by (rule handleOpenAIChat_loop_never_leaves [OF asks_again_calling
          FunctionCalls_call_response])
  then show "handleOpenAIChat calling_upstream stub_os app_globals () hi_request = None"
    by (simp add: handleOpenAIChat_def Let_def calling_upstream_def hi_request_def
        handleOpenAIChat_model_def HasPrefix_def is_experimental_def app_globals_def)
qed

text \<open>
  Claim C4, as the code has it. Neither loop has a cap on tool-resolution rounds. Against
  an upstream that answers every submission with function calls, the loop of
  \<open>handleChat\<close> and the loop of \<open>handleOpenAIChat\<close> never leave. Against an upstream
  that returns function calls \<open>K\<close> times and then a response without any, for any
  \<open>K\<close>, the loop of \<open>handleChat\<close> ends after exactly these \<open>K\<close> rounds, with every
  call logged.
\<close>

theorem turn_loop_has_no_cap:
  "(asks_again up \<and> FunctionCalls (res t) \<noteq> [] \<longrightarrow>
      handleChat_loop up os rt model orders t = None) \<and>
   (asks_again up \<and> FunctionCalls r0 \<noteq> [] \<longrightarrow>
      handleOpenAIChat_loop up os rt (c0, w0, r0) = None) \<and>
   ((\<forall>r \<in> set calls. FunctionCalls r \<noteq> []) \<and> FunctionCalls final = [] \<and>
    res t1 # chat t1 = calls @ final # rest \<longrightarrow>
      (\<exists>t'. handleChat_loop (scripted s) os1 rt model orders t1 = Some t' \<and>
            res t' = final \<and> chat t' = rest \<and>
            length (toolLogs t') =
              length (toolLogs t1) + sum_list (map (\<lambda>r. length (FunctionCalls r)) calls)))"
  using handleChat_loop_never_leaves [of up t os rt model orders]
        handleOpenAIChat_loop_never_leaves [of up r0 os rt c0 w0]
        scripted_rounds [of calls final t1 rest s os1 rt model orders]
  by blast

theorem turn_loop_has_no_cap_witness:
  "asks_again calling_upstream \<and> FunctionCalls call_response \<noteq> [] \<and>
   handleChat_loop calling_upstream stub_os ''/srv/app'' ''gemini-2.0-flash'' source_order
     (first_turn () () call_response) = None \<and>
   handleOpenAIChat_loop calling_upstream stub_os ''/srv/app'' ((), (), call_response) = None \<and>
   map_option (\<lambda>t'. (res t', chat t', length (toolLogs t')))
     (handleChat_loop (scripted []) stub_os ''/srv/app'' ''gemini-2.0-flash'' source_order
        (first_turn [call_response, text_response ''done''] () call_response)) =
     Some (text_response ''done'', [], 2)"
proof -
  note w = turn_loop_has_no_cap
    [of calling_upstream "first_turn () () call_response" stub_os "''/srv/app''"
        "''gemini-2.0-flash''" source_order call_response "()" "()"
        "[call_response, call_response]" "text_response ''done''"
        "first_turn [call_response, text_response ''done''] () call_response" "[]" "[]" stub_os]
  have a: "asks_again calling_upstream \<and> FunctionCalls call_response \<noteq> []"
    by (simp add: asks_again_calling FunctionCalls_call_response)
  have r: "res (first_turn () () call_response) = call_response"
    by (simp add: first_turn_def)
  have b: "(\<forall>r \<in> set [call_response, call_response]. FunctionCalls r \<noteq> []) \<and>
      FunctionCalls (text_response ''done'') = [] \<and>
      res (first_turn [call_response, text_response ''done''] () call_response) #
      chat (first_turn [call_response, text_response ''done''] () call_response) =
        [call_response, call_response] @ text_response ''done'' # []"
    by (simp add: FunctionCalls_call_response FunctionCalls_text_response first_turn_def)
  from w a r have 1: "handleChat_loop calling_upstream stub_os ''/srv/app'' ''gemini-2.0-flash''
      source_order (first_turn () () call_response) = None"
    by simp
  from w a have 2: "handleOpenAIChat_loop calling_upstream stub_os ''/srv/app''
      ((), (), call_response) = None"
    by simp
  from w b obtain t' where
    "handleChat_loop (scripted []) stub_os ''/srv/app'' ''gemini-2.0-flash'' source_order
        (first_turn [call_response, text_response ''done''] () call_response) = Some t'"
    "res t' = text_response ''done''" "chat t' = []"
    "length (toolLogs t') =
       length (toolLogs (first_turn [call_response, text_response ''done''] () call_response)) +
       sum_list (map (\<lambda>r. length (FunctionCalls r)) [call_response, call_response])"
    by blast
  then have 3: "map_option (\<lambda>t'. (res t', chat t', length (toolLogs t')))
     (handleChat_loop (scripted []) stub_os ''/srv/app'' ''gemini-2.0-flash'' source_order
        (first_turn [call_response, text_response ''done''] () call_response)) =
     Some (text_response ''done'', [], 2)"
    by (simp add: first_turn_def call_response_def FunctionCalls_def first_parts_def
        List.map_filter_simps)
  from a 1 2 3 show ?thesis
    by simp
qed

section \<open>Properties of the final text\<close>

lemma TrimSpace_empty: "TrimSpace [] = []"
  by (simp add: TrimSpace_def)

lemma TrimSpace_Hello: "TrimSpace ''Hello'' = ''Hello''"
  by (simp add: TrimSpace_def space_seqs_def HasPrefix_def)

lemma finish_response_nonempty: "finish_response final nTools nImages \<noteq> []"
  by (auto simp: finish_response_def Let_def empty_warning_def)

text \<open>
  The native handler never answers with an empty text.
\<close>

lemma handleChat_reply_nonempty:
  "handleChat up os orders g w req = Some (HttpOK reply, g', w') \<Longrightarrow> ReplyText reply \<noteq> []"
  by (auto simp: handleChat_def Let_def finish_response_nonempty
      split: sum.splits prod.splits option.splits)

text \<open>
  Claim C5 at an upstream whose one response is an empty text with no function calls and
  no images. The buffered OpenAI-compatible handler answers with the empty string as the
  message content; the native handler, for the same response, answers with the
  warning.
\<close>

theorem openai_empty_reply:
  "FunctionCalls empty_answer = [] \<and> response_text empty_answer = [] \<and>
   openai_content
     (handleOpenAIChat (scripted [empty_answer]) stub_os app_globals () hi_request) = Some [] \<and>
   reply_text
     (handleChat (scripted [empty_answer]) stub_os source_order app_globals ()
        (plain_request\<lparr>Message := ''hi''\<rparr>)) = Some empty_warning"
proof -
  have m: "handleOpenAIChat_model (ReqModel hi_request) (cacheModel app_globals) =
      Inr ''gemini-2.0-flash''"
    by (simp add: handleOpenAIChat_model_def hi_request_def HasPrefix_def is_experimental_def)
  have 1: "openai_content
      (handleOpenAIChat (scripted [empty_answer]) stub_os app_globals () hi_request) = Some []"
    by (simp add: handleOpenAIChat_def m Let_def scripted_def handleOpenAIChat_loop_plain
        empty_answer_def
        FunctionCalls_text_response response_text_text_response openai_content_def)
  have 2: "reply_text
     (handleChat (scripted [empty_answer]) stub_os source_order app_globals ()
        (plain_request\<lparr>Message := ''hi''\<rparr>)) = Some empty_warning"
    apply (simp add: handleChat_def Let_def scripted_def handleChat_loop_text_response
        empty_answer_def)
    apply (simp add: reply_text_def first_turn_def finish_response_def TrimSpace_empty)
    done
  from 1 2 show ?thesis
    by (simp add: FunctionCalls_text_response response_text_text_response empty_answer_def)
qed

section \<open>Properties of the native handler\<close>

lemma Message_request_defaults: "Message (request_defaults req) = Message req"
  by (simp add: request_defaults_def Let_def)

text \<open>
  Claim C9. For a request whose message is empty, once the chat is created, the handler
  submits the single text part \<open>Hello\<close> to it. If that submission fails, the handler
  answers with status 500 and the error. If it succeeds, the turn runs from the response
  to \<open>Hello\<close>: the handler never answers when the loop on that response never
  leaves, and otherwise the reply text and the stored history are those of the loop's
  final state.
\<close>

theorem empty_message_sends_Hello:
  "Message req = [] \<Longrightarrow>
   Create up (Model (request_defaults req))
     (chat_config (request_defaults req)
        (activeCID (request_defaults req) (cacheName g) (cacheModel g)))
     (session_history g (SessionID (request_defaults req))) = Inr c0 \<Longrightarrow>
   user_message (request_defaults req) = ''Hello'' \<and>
   (\<forall>err. SendMessage up c0 [text_part ''Hello''] = Inl err \<longrightarrow>
      handleChat up os orders g w req = Some (HttpError 500 err, g, w)) \<and>
   (\<forall>r c1. SendMessage up c0 [text_part ''Hello''] = Inr (r, c1) \<longrightarrow>
      (case handleChat_loop up os (projectRoot g) (Model (request_defaults req)) orders
              (first_turn c1 w r) of
         None \<Rightarrow> handleChat up os orders g w req = None
       | Some t \<Rightarrow>
           reply_text (handleChat up os orders g w req) =
             Some (finish_response (finalResponse t) (length (toolLogs t)) (length (images t))) \<and>
           session_after (handleChat up os orders g w req) (SessionID (request_defaults req)) =
             Some (History up (chat t))))"
proof -
  assume e: "Message req = []"
    and c: "Create up (Model (request_defaults req))
     (chat_config (request_defaults req)
        (activeCID (request_defaults req) (cacheName g) (cacheModel g)))
     (session_history g (SessionID (request_defaults req))) = Inr c0"
  have u: "user_message (request_defaults req) = ''Hello''"
    using e by (simp add: user_message_def Message_request_defaults)
  have 1: "handleChat up os orders g w req = Some (HttpError 500 err, g, w)"
    if "SendMessage up c0 [text_part ''Hello''] = Inl err" for err
    using that c u by (simp add: handleChat_def Let_def)
  have 2: "case handleChat_loop up os (projectRoot g) (Model (request_defaults req)) orders
              (first_turn c1 w r) of
         None \<Rightarrow> handleChat up os orders g w req = None
       | Some t \<Rightarrow>
           reply_text (handleChat up os orders g w req) =
             Some (finish_response (finalResponse t) (length (toolLogs t)) (length (images t))) \<and>
           session_after (handleChat up os orders g w req) (SessionID (request_defaults req)) =
             Some (History up (chat t))"
    if "SendMessage up c0 [text_part ''Hello''] = Inr (r, c1)" for r c1
    using that c u
    by (simp add: handleChat_def Let_def reply_text_def session_after_def split: option.split)
  from u 1 2 show ?thesis
    by blast
qed

text \<open>
  An upstream that echoes what it is sent answers an empty message with \<open>Hello\<close>
  and keeps \<open>Hello\<close> as the user's turn.
\<close>

theorem empty_message_sends_Hello_witness:
  "Message plain_request = [] \<and>
   SendMessage echo_upstream [] [text_part ''Hello''] =
     Inr (text_response ''Hello'', [text_part ''Hello'']) \<and>
   reply_text (handleChat echo_upstream stub_os source_order app_globals () plain_request) =
     Some ''Hello'' \<and>
   session_after (handleChat echo_upstream stub_os source_order app_globals () plain_request)
     ''default'' = Some [\<lparr>Parts = [text_part ''Hello''], Role = ''user''\<rparr>]"
proof -
  have h: "Message plain_request = []"
    by (simp add: plain_request_def)
  have c: "Create echo_upstream (Model (request_defaults plain_request))
     (chat_config (request_defaults plain_request)
        (activeCID (request_defaults plain_request) (cacheName app_globals)
           (cacheModel app_globals)))
     (session_history app_globals (SessionID (request_defaults plain_request))) = Inr []"
    by (simp add: echo_upstream_def)
  have s: "SendMessage echo_upstream [] [text_part ''Hello''] =
     Inr (text_response ''Hello'', [text_part ''Hello''])"
    by (simp add: echo_upstream_def text_part_def)
  have l: "handleChat_loop echo_upstream stub_os (projectRoot app_globals)
      (Model (request_defaults plain_request)) source_order
      (first_turn [text_part ''Hello''] () (text_response ''Hello'')) =
      Some ((first_turn [text_part ''Hello''] () (text_response ''Hello''))
              \<lparr>finalResponse := ''Hello''\<rparr>)"
    by (rule handleChat_loop_text_response)
  have sid: "SessionID (request_defaults plain_request) = ''default''"
    by (simp add: request_defaults_def plain_request_def Let_def)
  from empty_message_sends_Hello [OF h c, of stub_os source_order "()"] s
  have "case handleChat_loop echo_upstream stub_os (projectRoot app_globals)
      (Model (request_defaults plain_request)) source_order
      (first_turn [text_part ''Hello''] () (text_response ''Hello'')) of
         None \<Rightarrow> handleChat echo_upstream stub_os source_order app_globals () plain_request = None
       | Some t \<Rightarrow>
           reply_text (handleChat echo_upstream stub_os source_order app_globals () plain_request) =
             Some (finish_response (finalResponse t) (length (toolLogs t)) (length (images t))) \<and>
           session_after (handleChat echo_upstream stub_os source_order app_globals () plain_request)
             (SessionID (request_defaults plain_request)) = Some (History echo_upstream (chat t))"
    by blast
  then have "reply_text (handleChat echo_upstream stub_os source_order app_globals () plain_request) =
       Some ''Hello'' \<and>
     session_after (handleChat echo_upstream stub_os source_order app_globals () plain_request)
       ''default'' = Some [\<lparr>Parts = [text_part ''Hello''], Role = ''user''\<rparr>]"
    unfolding l sid
    by (simp add: first_turn_def finish_response_def TrimSpace_Hello echo_upstream_def)
  with h s show ?thesis
    by simp
qed

lemma unknown_model_costs_nothing:
  "\<forall>(k, r) \<in> set order. \<not> (m = k \<or> HasPrefix m k) \<Longrightarrow> calculateCost order m u = 0"
  using lookupRates_none [of order m] by (simp add: calculateCost_def case_prod_beta)

lemma handleChat_loop_billed:
  "handleChat_loop up os rt model orders (first_turn c w billed_answer) =
     Some ((first_turn c w billed_answer)
             \<lparr>requestCost := calculateCost (orders 0) model (Some million_usage),
              finalResponse := ''ok''\<rparr>)"
proof -
  have n: "\<not> no_content billed_answer"
    by (simp add: billed_answer_def text_response_def no_content_def)
  have f: "FunctionCalls billed_answer = []"
    by (simp add: billed_answer_def text_response_def FunctionCalls_def first_parts_def
        List.map_filter_simps text_part_def)
  have t: "response_text billed_answer = ''ok''"
    by (simp add: billed_answer_def text_response_def response_text_def first_parts_def
        text_part_def)
  have i: "inline_images billed_answer = []"
    by (simp add: billed_answer_def inline_images_def text_response_def first_parts_def
        text_part_def List.map_filter_simps)
  have u: "UsageMetadata billed_answer = Some million_usage"
    by (simp add: billed_answer_def)
  have r: "res (first_turn c w billed_answer) = billed_answer"
    by (simp add: first_turn_def)
  show ?thesis
    by (subst handleChat_loop.simps) (simp add: Let_def r n f t i u, simp add: first_turn_def)
qed

text \<open>
  Claim C10 at the free model \<open>gemini-2.0-flash-exp\<close>, whose own entry in the table
  has both rates zero. Visiting the table in the order of the source text, the loop
  stops at the key \<open>gemini-2.0-flash\<close>, a prefix of the name, and the call is billed
  at its rates: a million tokens in and a million out cost 0.5, and a native chat request
  for that model raises the running total from 0 to 0.5.
\<close>

theorem free_model_is_billed:
  "map_of modelCosts ''gemini-2.0-flash-exp'' = Some \<lparr>In = 0, Out = 0\<rparr> \<and>
   range_order modelCosts \<and>
   fst (lookupRates modelCosts ''gemini-2.0-flash-exp'') = \<lparr>In = 0.10, Out = 0.40\<rparr> \<and>
   calculateCost modelCosts ''gemini-2.0-flash-exp'' (Some million_usage) = 0.5 \<and>
   total_after
     (handleChat (scripted [billed_answer]) stub_os source_order app_globals ()
        (plain_request\<lparr>Model := ''gemini-2.0-flash-exp'', Message := ''hi''\<rparr>)) = Some 0.5"
proof -
  have m: "map_of modelCosts ''gemini-2.0-flash-exp'' = Some \<lparr>In = 0, Out = 0\<rparr>"
    by (simp add: modelCosts_def)
  have l: "lookupRates modelCosts ''gemini-2.0-flash-exp'' = (\<lparr>In = 0.10, Out = 0.40\<rparr>, True)"
    by (simp add: modelCosts_def HasPrefix_def)
  have c: "calculateCost modelCosts ''gemini-2.0-flash-exp'' (Some million_usage) = 0.5"
    by (simp add: calculateCost_def l million_usage_def)
  have t: "total_after
     (handleChat (scripted [billed_answer]) stub_os source_order app_globals ()
        (plain_request\<lparr>Model := ''gemini-2.0-flash-exp'', Message := ''hi''\<rparr>)) = Some 0.5"
    apply (simp add: handleChat_def Let_def scripted_def request_defaults_def plain_request_def
        handleChat_loop_billed)
    apply (simp add: total_after_def first_turn_def source_order_def c app_globals_def)
    done
  from m range_order_table l c t show ?thesis
    by simp
qed

text \<open>
  So a free model does contribute to the running total.
\<close>

theorem free_model_is_billed_witness:
  "calculateCost modelCosts ''gemini-2.0-flash-exp'' (Some million_usage) \<noteq> 0 \<and>
   total_after
     (handleChat (scripted [billed_answer]) stub_os source_order app_globals ()
        (plain_request\<lparr>Model := ''gemini-2.0-flash-exp'', Message := ''hi''\<rparr>)) \<noteq>
   Some (totalCost app_globals)"
  using free_model_is_billed by (simp add: app_globals_def)

end
